theory Spec2Isabelle
  imports Main "HOL-Library.Word"
begin

section \<open>Data model\<close>

text \<open>
  The pipelining engine of the forwarder: the correlation cache (\<open>SenderCache\<close>), the
  pipe (\<open>Pipe\<close>) and the pipe driver (\<open>PipeDriverImpl\<close>), in their latest
  versions in the sources. Locks are not modelled: every function below is the body that
  runs while the lock it takes is held. Log lines are modelled only where evaluating
  their arguments can panic.
\<close>

type_synonym uint16 = "16 word"

text \<open>
  \<open>dns.Msg\<close>: the identifier (\<open>Id\<close> in the source, \<open>msgId\<close> here) and the
  two sections the code indexes. A question and an answer are represented by their text.
\<close>

record Msg =
  msgId :: uint16
  Question :: "string list"
  Answer :: "string list"

text \<open>
  A \<open>*Sender\<close> is the address of the heap cell that holds the two channels of one
  request. \<open>&Sender{...}\<close> yields an address that no live Sender has; the functions
  that allocate take that address as an argument.
\<close>

type_synonym Sender = nat

record SenderCache =
  cache :: "uint16 \<rightharpoonup> Sender"
  msgIDGen :: uint16

datatype error =
  WriteNotReady
  | TimeoutErr
  | ErrorNew string
  | External string

datatype panic = IndexOutOfRange | InvalidArgument | SendOnClosedChannel | NilDereference

section \<open>SenderCache\<close>

definition SenderCache_add :: "SenderCache \<Rightarrow> Msg \<Rightarrow> Sender \<Rightarrow> uint16 \<times> Sender \<times> SenderCache \<times> Msg" where
  "SenderCache_add c msg s =
     (let oldMsgId = msgId msg;
          c1 = c\<lparr>msgIDGen := msgIDGen c + 1\<rparr>;
          msg1 = msg\<lparr>msgId := msgIDGen c1\<rparr>;
          c2 = c1\<lparr>cache := (cache c1)(msgId msg1 \<mapsto> s)\<rparr>
      in (oldMsgId, s, c2, msg1))"

definition SenderCache_getAndRemove :: "SenderCache \<Rightarrow> uint16 \<Rightarrow> Sender option \<times> SenderCache" where
  "SenderCache_getAndRemove c i =
     (case cache c i of
        None \<Rightarrow> (None, c)
      | Some sender \<Rightarrow> (Some sender, c\<lparr>cache := (cache c)(i := None)\<rparr>))"

section \<open>Pipe\<close>

text \<open>
  What a call can do besides returning: panic, or block for ever on a channel.
\<close>

datatype 'a exec = Returns 'a | Panics panic | Blocks

text \<open>
  The fields of \<open>Pipe\<close> that the functions below read or write. \<open>writeChan\<close> is an
  unbuffered channel: its state is the queue of messages whose senders are blocked on it,
  oldest first. \<open>doneR\<close> and \<open>doneW\<close> are channels that are only ever closed: their
  state is whether they are closed. \<open>has_driver\<close> says that the field \<open>driver\<close> is
  not nil (\<open>finalize\<close> sets it to nil).
\<close>

record Pipe =
  has_driver :: bool
  writeChan :: "Msg list"
  writeReady :: bool
  doneR :: bool
  doneW :: bool
  pipe_cache :: SenderCache

definition isWriteReady :: "Pipe \<Rightarrow> bool" where
  "isWriteReady p = writeReady p"

definition setWriteReady :: "Pipe \<Rightarrow> bool \<Rightarrow> Pipe" where
  "setWriteReady p ready = p\<lparr>writeReady := ready\<rparr>"

definition safeClose :: "bool \<Rightarrow> bool" where
  "safeClose ch = (if ch then ch else True)"

text \<open>
  \<open>process\<close> stops at two places where other goroutines decide how it goes on. At
  \<open>p.writeChan <- msg\<close> the message is received (by the writer loop or by
  \<open>resurrectReqs\<close>), or nobody receives it any more, or the channel has been closed by
  \<open>finalize\<close>. At the \<open>select\<close> one of the three cases fires. Both outcomes are
  arguments of the model, and so is \<open>interf\<close>, the net effect of the other goroutines
  on the pipe while \<open>process\<close> is stopped.
\<close>

datatype send_outcome = Received | NeverReceived | ChanClosed

datatype select_outcome = ResponseChan Msg | ErrChan error | After

text \<open>
  The result is Go's pair \<open>(*dns.Msg, error)\<close>, with the pipe and the request message
  as they are when the call returns.
\<close>

definition Pipe_process ::
  "Pipe \<Rightarrow> Msg \<Rightarrow> Sender \<Rightarrow> send_outcome \<Rightarrow> (Pipe \<Rightarrow> Pipe) \<Rightarrow> select_outcome
     \<Rightarrow> (Pipe \<times> Msg \<times> Msg option \<times> error option) exec" where
  "Pipe_process p msg s sent interf sel =
     (if Question msg = [] then Panics IndexOutOfRange
      else if \<not> isWriteReady p then Returns (p, msg, None, Some WriteNotReady)
      else
        (case SenderCache_add (pipe_cache p) msg s of
           (oldMsgID, sender, c, msg1) \<Rightarrow>
             (case sent of
                ChanClosed \<Rightarrow> Panics SendOnClosedChannel
              | NeverReceived \<Rightarrow> Blocks
              | Received \<Rightarrow>
                  (let p1 = interf (p\<lparr>pipe_cache := c, writeChan := writeChan p @ [msg1]\<rparr>) in
                   case sel of
                     ResponseChan resp \<Rightarrow>
                       if Answer resp = [] then Panics IndexOutOfRange
                       else Returns (p1, msg1\<lparr>msgId := oldMsgID\<rparr>, Some (resp\<lparr>msgId := oldMsgID\<rparr>), None)
                   | ErrChan err \<Rightarrow>
                       Returns (p1, msg1\<lparr>msgId := oldMsgID\<rparr>, None, Some err)
                   | After \<Rightarrow>
                       Returns (p1\<lparr>pipe_cache := snd (SenderCache_getAndRemove (pipe_cache p1) (msgId msg1))\<rparr>,
                                msg1, None, Some TimeoutErr)))))"

text \<open>
  What the writer does to the outside, in order: the call \<open>p.driver.removePipe(p)\<close>,
  the timer that will close \<open>doneR\<close>, a completed send on the error channel of a
  Sender, a message written to the connection with success.
\<close>

datatype pipe_action =
  DriverRemovePipe
  | AfterFuncCloseDoneR
  | ErrChanSend Sender error
  | ConnWriteMsg Msg

text \<open>
  \<open>sender.errChan <- writeNotReady\<close> is a send on an unbuffered channel: it completes
  when the goroutine that owns the Sender is receiving in its \<open>select\<close>, and blocks for
  ever when that goroutine has left. \<open>listening s\<close> says which.

  \<open>resurrectReqs\<close> receives from \<open>writeChan\<close> until no sender is blocked on it: the
  loop runs over the queue.
\<close>

fun resurrect_loop ::
  "(Sender \<Rightarrow> bool) \<Rightarrow> Msg list \<Rightarrow> SenderCache \<Rightarrow> (Msg list \<times> SenderCache \<times> pipe_action list) exec" where
  "resurrect_loop listening [] c = Returns ([], c, [])"
| "resurrect_loop listening (req # q) c =
     (case SenderCache_getAndRemove c (msgId req) of
        (None, c1) \<Rightarrow> resurrect_loop listening q c1
      | (Some sender, c1) \<Rightarrow>
          if listening sender then
            (case resurrect_loop listening q c1 of
               Returns (q', c', acts) \<Rightarrow> Returns (q', c', ErrChanSend sender WriteNotReady # acts)
             | Panics e \<Rightarrow> Panics e
             | Blocks \<Rightarrow> Blocks)
          else Blocks)"

definition resurrectReqs :: "(Sender \<Rightarrow> bool) \<Rightarrow> Pipe \<Rightarrow> (Pipe \<times> pipe_action list) exec" where
  "resurrectReqs listening p =
     (case resurrect_loop listening (writeChan p) (pipe_cache p) of
        Returns (q, c, acts) \<Rightarrow> Returns (p\<lparr>writeChan := q, pipe_cache := c\<rparr>, acts)
      | Panics e \<Rightarrow> Panics e
      | Blocks \<Rightarrow> Blocks)"

definition closeWriteLoop :: "(Sender \<Rightarrow> bool) \<Rightarrow> Pipe \<Rightarrow> Msg \<Rightarrow> (Pipe \<times> pipe_action list) exec" where
  "closeWriteLoop listening p req =
     (let p1 = setWriteReady p False in
      if \<not> has_driver p1 then Panics NilDereference
      else
        (let p2 = p1\<lparr>doneW := safeClose (doneW p1)\<rparr>;
             pre = [DriverRemovePipe, AfterFuncCloseDoneR]
         in case SenderCache_getAndRemove (pipe_cache p2) (msgId req) of
              (None, c) \<Rightarrow>
                (case resurrectReqs listening (p2\<lparr>pipe_cache := c\<rparr>) of
                   Returns (p3, acts) \<Rightarrow> Returns (p3, pre @ acts)
                 | Panics e \<Rightarrow> Panics e
                 | Blocks \<Rightarrow> Blocks)
            | (Some sender, c) \<Rightarrow>
                if listening sender then
                  (case resurrectReqs listening (p2\<lparr>pipe_cache := c\<rparr>) of
                     Returns (p3, acts) \<Rightarrow> Returns (p3, pre @ ErrChanSend sender WriteNotReady # acts)
                   | Panics e \<Rightarrow> Panics e
                   | Blocks \<Rightarrow> Blocks)
                else Blocks))"

text \<open>
  One pass of the \<open>for\<close> loop of \<open>writeLoop\<close>. The \<open>select\<close> has a ready case when
  \<open>doneW\<close> is closed or a sender is blocked on \<open>writeChan\<close>; when both are, the
  runtime chooses, and \<open>pick_done\<close> is its choice. \<open>deadline_err\<close> and
  \<open>write_err\<close> are the results of \<open>SetWriteDeadline\<close> and \<open>WriteMsg\<close>. The
  result says whether the loop goes on (\<open>True\<close>) or the function has returned.
\<close>

definition writeLoop_iter ::
  "(Sender \<Rightarrow> bool) \<Rightarrow> Pipe \<Rightarrow> bool \<Rightarrow> error option \<Rightarrow> error option
     \<Rightarrow> (Pipe \<times> pipe_action list \<times> bool) exec" where
  "writeLoop_iter listening p pick_done deadline_err write_err =
     (if doneW p \<and> (writeChan p = [] \<or> pick_done) then Returns (p, [], False)
      else
        (case writeChan p of
           [] \<Rightarrow> Blocks
         | req # q \<Rightarrow>
             (let p1 = p\<lparr>writeChan := q\<rparr> in
              if deadline_err \<noteq> None then
                (case closeWriteLoop listening p1 req of
                   Returns (p2, acts) \<Rightarrow> Returns (p2, acts, False)
                 | Panics e \<Rightarrow> Panics e
                 | Blocks \<Rightarrow> Blocks)
              else if write_err \<noteq> None then
                (case closeWriteLoop listening p1 req of
                   Returns (p2, acts) \<Rightarrow> Returns (p2, acts, False)
                 | Panics e \<Rightarrow> Panics e
                 | Blocks \<Rightarrow> Blocks)
              else Returns (p1, [ConnWriteMsg req], True))))"

section \<open>Pipe driver\<close>

record ConnConfig =
  Hostname :: string
  Port :: int

text \<open>
  A \<open>*Pipe\<close> as the driver holds it: the address, which is what \<open>==\<close> compares, and
  the field \<open>primary\<close>, which is set by \<open>NewPipe\<close> and never written again.
\<close>

record PipeRef =
  ptr :: nat
  primary :: bool

text \<open>
  Go's \<open>int\<close> has 64 bits; the counters are modelled as integers without a bound. The
  invariant proved below keeps the two loading counters between 0 and the limits, so no
  reachable state is near the bound.
\<close>

record PipeDriverImpl =
  upstreams :: "ConnConfig list"
  primaryLimit :: int
  secondaryLimit :: int
  pipes :: "PipeRef list"
  primaryLoading :: int
  secondaryLoading :: int

definition PRIMARY_PIPES_MAX :: int where
  "PRIMARY_PIPES_MAX = 50"

definition SECONDARY_PIPES_MAX :: int where
  "SECONDARY_PIPES_MAX = 50"

definition NewDriver :: "ConnConfig list \<Rightarrow> PipeDriverImpl" where
  "NewDriver ups =
     \<lparr>upstreams = ups, primaryLimit = PRIMARY_PIPES_MAX, secondaryLimit = SECONDARY_PIPES_MAX,
      pipes = [], primaryLoading = 0, secondaryLoading = 0\<rparr>"

definition remove :: "'a list \<Rightarrow> nat \<Rightarrow> 'a list" where
  "remove sl s = take s sl @ drop (s + 1) sl"

function removePipe_loop :: "PipeDriverImpl \<Rightarrow> PipeRef \<Rightarrow> nat \<Rightarrow> PipeDriverImpl" where
  "removePipe_loop pd pipe i =
     (if i < length (pipes pd) then
        (if ptr (pipes pd ! i) = ptr pipe then pd\<lparr>pipes := remove (pipes pd) i\<rparr>
         else removePipe_loop pd pipe (i + 1))
      else pd)"
  by pat_completeness auto
termination
  by (relation "measure (\<lambda>(pd, pipe, i). length (pipes pd) - i)") auto

declare removePipe_loop.simps [simp del]

definition removePipe :: "PipeDriverImpl \<Rightarrow> PipeRef \<Rightarrow> PipeDriverImpl" where
  "removePipe pd pipe = removePipe_loop pd pipe 0"

definition pipeReady :: "PipeDriverImpl \<Rightarrow> PipeRef \<Rightarrow> PipeDriverImpl" where
  "pipeReady pd pipe =
     (let pd1 = pd\<lparr>pipes := pipes pd @ [pipe]\<rparr> in
      if primary pipe then pd1\<lparr>primaryLoading := primaryLoading pd1 - 1\<rparr>
      else pd1\<lparr>secondaryLoading := secondaryLoading pd1 - 1\<rparr>)"

text \<open>
  \<open>rand.Intn\<close> and \<open>rand.IntnRange\<close> of \<open>k8s.io/apimachinery/pkg/util/rand\<close>, with
  the random number they draw as the argument \<open>r\<close>: \<open>Intn n\<close> is in \<open>[0, n)\<close> and
  panics when \<open>n \<le> 0\<close>; \<open>IntnRange lo hi\<close> is \<open>Intn (hi - lo) + lo\<close>.
\<close>

definition Intn :: "int \<Rightarrow> nat \<Rightarrow> panic + int" where
  "Intn n r = (if n \<le> 0 then Inl InvalidArgument else Inr (int r mod n))"

definition IntnRange :: "int \<Rightarrow> int \<Rightarrow> nat \<Rightarrow> panic + int" where
  "IntnRange lo hi r = (case Intn (hi - lo) r of Inl e \<Rightarrow> Inl e | Inr k \<Rightarrow> Inr (k + lo))"

definition index :: "'a list \<Rightarrow> int \<Rightarrow> panic + 'a" where
  "index xs i = (if 0 \<le> i \<and> i < int (length xs) then Inr (xs ! nat i) else Inl IndexOutOfRange)"

definition selectUpstream :: "PipeDriverImpl \<Rightarrow> bool \<Rightarrow> nat \<Rightarrow> panic + ConnConfig" where
  "selectUpstream pd prim r =
     (if prim \<or> length (upstreams pd) = 1 then index (upstreams pd) 0
      else
        (case IntnRange 1 (int (length (upstreams pd))) r of
           Inl e \<Rightarrow> Inl e
         | Inr i \<Rightarrow> index (upstreams pd) i))"

text \<open>
  \<open>NewPipe(pd, primary, config)\<close> builds a pipe and starts the goroutine that dials;
  the driver does not keep the pointer. A call is recorded as the pair of its arguments.
\<close>

type_synonym spawn = "bool \<times> ConnConfig"

definition pipeInitFailed :: "PipeDriverImpl \<Rightarrow> PipeRef \<Rightarrow> nat \<Rightarrow> panic + spawn" where
  "pipeInitFailed pd pipe r =
     (case selectUpstream pd (primary pipe) r of
        Inl e \<Rightarrow> Inl e
      | Inr u \<Rightarrow> Inr (primary pipe, u))"

fun countPipes_loop :: "PipeRef list \<Rightarrow> int \<times> int \<Rightarrow> int \<times> int" where
  "countPipes_loop [] (prim, secondary) = (prim, secondary)"
| "countPipes_loop (p # ps) (prim, secondary) =
     (if primary p then countPipes_loop ps (prim + 1, secondary)
      else countPipes_loop ps (prim, secondary + 1))"

definition countPipes :: "PipeDriverImpl \<Rightarrow> int \<times> int" where
  "countPipes pd = countPipes_loop (pipes pd) (0, 0)"

text \<open>
  The three loops of \<open>loadPipes\<close> have the same body: \<open>for i := 0; i < n; i++\<close> with
  \<open>loading++\<close> and a call of \<open>NewPipe\<close>. \<open>rnd i\<close> is the random number drawn in
  pass \<open>i\<close>. The bound \<open>n\<close> is the value of the loop condition's right-hand side,
  which the body does not change.
\<close>

function spawn_loop ::
  "PipeDriverImpl \<Rightarrow> bool \<Rightarrow> (nat \<Rightarrow> nat) \<Rightarrow> int \<Rightarrow> int \<Rightarrow> int \<Rightarrow> spawn list \<Rightarrow> panic + (int \<times> spawn list)" where
  "spawn_loop pd prim rnd n i loading spawned =
     (if i < n then
        (case selectUpstream pd prim (rnd (nat i)) of
           Inl e \<Rightarrow> Inl e
         | Inr u \<Rightarrow> spawn_loop pd prim rnd n (i + 1) (loading + 1) (spawned @ [(prim, u)]))
      else Inr (loading, spawned))"
  by pat_completeness auto
termination
  by (relation "measure (\<lambda>(pd, prim, rnd, n, i, loading, spawned). nat (n - i))") auto

declare spawn_loop.simps [simp del]

definition loadPipes :: "PipeDriverImpl \<Rightarrow> (nat \<Rightarrow> nat) \<Rightarrow> panic + (PipeDriverImpl \<times> spawn list)" where
  "loadPipes pd rnd =
     (case countPipes pd of
        (prim, secondary) \<Rightarrow>
          if prim = 0 then
            (case spawn_loop pd True rnd (primaryLimit pd - primaryLoading pd) 0 0 [] of
               Inl e \<Rightarrow> Inl e
             | Inr (loading, sp1) \<Rightarrow>
                 (let pd1 = pd\<lparr>primaryLoading := loading + primaryLoading pd\<rparr> in
                  case spawn_loop pd1 False rnd
                         (secondaryLimit pd1 - secondary - secondaryLoading pd1) 0 0 [] of
                    Inl e \<Rightarrow> Inl e
                  | Inr (loading2, sp2) \<Rightarrow>
                      Inr (pd1\<lparr>secondaryLoading := loading2 + secondaryLoading pd1\<rparr>, sp1 @ sp2)))
          else
            (case spawn_loop pd True rnd (primaryLimit pd - prim - primaryLoading pd) 0 0 [] of
               Inl e \<Rightarrow> Inl e
             | Inr (loading, sp1) \<Rightarrow>
                 Inr (pd\<lparr>primaryLoading := loading + primaryLoading pd\<rparr>, sp1)))"

subsection \<open>The driver and its pipes as a state machine\<close>

text \<open>
  The driver's state changes through four functions, each atomic under the driver's
  locks: \<open>loadPipes\<close> (called by \<open>process\<close>), and the three callbacks of a pipe.
  \<open>initConn\<close> calls \<open>pipeReady\<close> or \<open>pipeInitFailed\<close>, once, for the pipe that
  \<open>NewPipe\<close> built; so the state of the whole holds, besides the driver, the pipes that
  have been built and have not called back yet. \<open>next_ptr\<close> is the next free address.
\<close>

record World =
  drv :: PipeDriverImpl
  initializing :: "PipeRef list"
  next_ptr :: nat

fun NewPipes :: "nat \<Rightarrow> spawn list \<Rightarrow> PipeRef list" where
  "NewPipes a [] = []"
| "NewPipes a ((prim, config) # sp) = \<lparr>ptr = a, primary = prim\<rparr> # NewPipes (a + 1) sp"

definition World_init :: "ConnConfig list \<Rightarrow> World" where
  "World_init ups = \<lparr>drv = NewDriver ups, initializing = [], next_ptr = 0\<rparr>"

datatype driver_op =
  OpLoadPipes "nat \<Rightarrow> nat"
  | OpPipeReady PipeRef
  | OpPipeInitFailed PipeRef nat
  | OpRemovePipe PipeRef

text \<open>
  One operation. The result is \<open>None\<close> when the operation cannot happen in this state
  (a callback of a pipe that is not initializing) or panics.
\<close>

fun World_step :: "World \<Rightarrow> driver_op \<Rightarrow> World option" where
  "World_step w (OpLoadPipes rnd) =
     (case loadPipes (drv w) rnd of
        Inl e \<Rightarrow> None
      | Inr (pd, sp) \<Rightarrow>
          Some \<lparr>drv = pd, initializing = initializing w @ NewPipes (next_ptr w) sp,
                next_ptr = next_ptr w + length sp\<rparr>)"
| "World_step w (OpPipeReady pipe) =
     (if pipe \<in> set (initializing w) then
        Some (w\<lparr>drv := pipeReady (drv w) pipe, initializing := remove1 pipe (initializing w)\<rparr>)
      else None)"
| "World_step w (OpPipeInitFailed pipe r) =
     (if pipe \<in> set (initializing w) then
        (case pipeInitFailed (drv w) pipe r of
           Inl e \<Rightarrow> None
         | Inr sp \<Rightarrow>
             Some (w\<lparr>initializing := remove1 pipe (initializing w) @ NewPipes (next_ptr w) [sp],
                     next_ptr := next_ptr w + 1\<rparr>))
      else None)"
| "World_step w (OpRemovePipe pipe) = Some (w\<lparr>drv := removePipe (drv w) pipe\<rparr>)"

fun World_run :: "World \<Rightarrow> driver_op list \<Rightarrow> World option" where
  "World_run w [] = Some w"
| "World_run w (operation # ops) =
     (case World_step w operation of None \<Rightarrow> None | Some w' \<Rightarrow> World_run w' ops)"

text \<open>
  The invariant of the state machine for a driver built over \<open>ups\<close>: the static
  fields are those of \<open>NewDriver\<close>, each loading counter is the number of initializing
  pipes of its class, and for each class the ready pipes and the loading counter together
  stay within the limit.
\<close>

definition World_inv :: "ConnConfig list \<Rightarrow> World \<Rightarrow> bool" where
  "World_inv ups w =
     (upstreams (drv w) = ups
      \<and> primaryLimit (drv w) = PRIMARY_PIPES_MAX
      \<and> secondaryLimit (drv w) = SECONDARY_PIPES_MAX
      \<and> primaryLoading (drv w) = int (length (filter primary (initializing w)))
      \<and> secondaryLoading (drv w) = int (length (filter (\<lambda>p. \<not> primary p) (initializing w)))
      \<and> int (length (filter primary (pipes (drv w)))) + primaryLoading (drv w)
           \<le> primaryLimit (drv w)
      \<and> int (length (filter (\<lambda>p. \<not> primary p) (pipes (drv w)))) + secondaryLoading (drv w)
           \<le> secondaryLimit (drv w))"

subsection \<open>\<open>PipeDriverImpl.process\<close>\<close>

definition Millisecond :: int where
  "Millisecond = 1000000"

definition RcodeSuccess :: int where
  "RcodeSuccess = 0"

definition RcodeServerFailure :: int where
  "RcodeServerFailure = 2"

text \<open>
  \<open>errors.Is\<close>: the errors of this package are values made by \<open>errors.New\<close> that wrap
  nothing, so an error is the target exactly when it is equal to it.
\<close>

definition errors_Is :: "error option \<Rightarrow> error \<Rightarrow> bool" where
  "errors_Is err target = (err = Some target)"

text \<open>
  What one pass of the loop of \<open>process\<close> meets. The driver and the pipes are shared
  with other goroutines, so each pass reads them anew: \<open>it_pd\<close> is the driver while the
  read lock is held, \<open>it_heap\<close> gives the pipe behind each address. \<open>it_draw\<close> and
  \<open>it_rnd\<close> are the random numbers drawn by \<open>process\<close> and inside \<open>loadPipes\<close>,
  \<open>it_now\<close> is the clock read by \<open>time.Now()\<close> in the pass, in nanoseconds. The four
  fields after it are the arguments of \<open>Pipe_process\<close>; \<open>it_sink\<close> is the result of
  \<open>w.WriteMsg\<close>.
\<close>

record Iter =
  it_pd :: PipeDriverImpl
  it_heap :: "nat \<Rightarrow> Pipe"
  it_draw :: nat
  it_rnd :: "nat \<Rightarrow> nat"
  it_now :: int
  it_sender :: Sender
  it_sent :: send_outcome
  it_interf :: "Pipe \<Rightarrow> Pipe"
  it_select :: select_outcome
  it_sink :: "error option"

text \<open>
  What the pass does to the outside, in order: \<open>loadPipes\<close> (the driver it leaves and
  the pipes it built), \<open>time.Sleep\<close>, \<open>pipe.process\<close> (the pipe and the state it
  leaves), \<open>w.WriteMsg\<close>.
\<close>

datatype driver_action =
  LoadPipes PipeDriverImpl "spawn list"
  | Sleep int
  | PipeProcess PipeRef Pipe
  | WriteMsg "Msg option"

datatype step = Continue Msg | Stop "(int \<times> error option) exec"

text \<open>The choice of the pipe, under the read lock: \<open>None\<close> is the nil pointer.\<close>

definition choosePipe :: "Iter \<Rightarrow> panic + (driver_action list \<times> PipeRef option)" where
  "choosePipe it =
     (let pd = it_pd it in
      if length (pipes pd) = 0 then
        (case loadPipes pd (it_rnd it) of
           Inl e \<Rightarrow> Inl e
         | Inr (pd', sp) \<Rightarrow> Inr ([LoadPipes pd' sp], None))
      else
        (case Intn (int (length (pipes pd))) (it_draw it) of
           Inl e \<Rightarrow> Inl e
         | Inr pipeId \<Rightarrow>
             (case index (pipes pd) pipeId of
                Inl e \<Rightarrow> Inl e
              | Inr pipe \<Rightarrow> Inr ([], Some pipe))))"

definition process_iter :: "int \<Rightarrow> Msg \<Rightarrow> Iter \<Rightarrow> driver_action list \<times> step" where
  "process_iter deadline msg it =
     (if Question msg = [] then ([], Stop (Panics IndexOutOfRange))
      else
        (case choosePipe it of
           Inl e \<Rightarrow> ([], Stop (Panics e))
         | Inr (acts, None) \<Rightarrow>
             if it_now it < deadline then (acts @ [Sleep (100 * Millisecond)], Continue msg)
             else (acts, Stop (Returns (RcodeServerFailure, Some (ErrorNew ''no pipe available''))))
         | Inr (acts, Some pipe) \<Rightarrow>
             (case Pipe_process (it_heap it (ptr pipe)) msg (it_sender it) (it_sent it)
                     (it_interf it) (it_select it) of
                Panics e \<Rightarrow> (acts, Stop (Panics e))
              | Blocks \<Rightarrow> (acts, Stop Blocks)
              | Returns (p', msg', resp, err) \<Rightarrow>
                  (let acts1 = acts @ [PipeProcess pipe p'] in
                   if err = None \<or> \<not> errors_Is err WriteNotReady then
                     (if err = None then
                        (case it_sink it of
                           Some e \<Rightarrow> (acts1 @ [WriteMsg resp], Stop (Returns (RcodeServerFailure, Some e)))
                         | None \<Rightarrow> (acts1 @ [WriteMsg resp], Stop (Returns (RcodeSuccess, None))))
                      else (acts1, Stop (Returns (RcodeServerFailure, err))))
                   else (acts1, Continue msg')))))"

text \<open>
  The loop, over the passes the environment provides. \<open>None\<close>: the passes are used up
  and the loop is still running.
\<close>

fun process_loop ::
  "int \<Rightarrow> Msg \<Rightarrow> Iter list \<Rightarrow> driver_action list \<times> (int \<times> error option) exec option" where
  "process_loop deadline msg [] = ([], None)"
| "process_loop deadline msg (it # its) =
     (case process_iter deadline msg it of
        (acts, Stop r) \<Rightarrow> (acts, Some r)
      | (acts, Continue msg') \<Rightarrow>
          (case process_loop deadline msg' its of (acts', r) \<Rightarrow> (acts @ acts', r)))"

text \<open>\<open>now\<close> is the clock read by \<open>time.Now()\<close> at the entry of \<open>process\<close>.\<close>

definition PipeDriverImpl_process ::
  "int \<Rightarrow> Msg \<Rightarrow> Iter list \<Rightarrow> driver_action list \<times> (int \<times> error option) exec option" where
  "PipeDriverImpl_process now msg its = process_loop (now + 500 * Millisecond) msg its"

section \<open>Properties of the correlation cache\<close>

text \<open>
  C9: \<open>add\<close> returns the identifier the message had together with the new Sender; the
  counter goes up by one modulo \<open>2 ^ 16\<close>; the message carries the new counter value;
  a lookup at the new key gives the new Sender, whatever was stored there before, and a
  Sender that was stored at that key alone is in the cache no more.
\<close>

theorem SenderCache_add_spec:
  "SenderCache_add c msg s = (old, s', c', msg') \<Longrightarrow>
     old = msgId msg \<and> s' = s
     \<and> unat (msgIDGen c') = (unat (msgIDGen c) + 1) mod 2 ^ 16
     \<and> msgId msg' = msgIDGen c'
     \<and> Question msg' = Question msg \<and> Answer msg' = Answer msg
     \<and> fst (SenderCache_getAndRemove c' (msgId msg')) = Some s
     \<and> (\<forall>s0. cache c (msgId msg') = Some s0 \<and> s0 \<noteq> s
            \<and> (\<forall>k. k \<noteq> msgId msg' \<longrightarrow> cache c k \<noteq> Some s0)
          \<longrightarrow> s0 \<notin> ran (cache c'))"
proof -
  assume a: "SenderCache_add c msg s = (old, s', c', msg')"
  from a have old: "old = msgId msg" and s': "s' = s"
    and c': "c' = c\<lparr>msgIDGen := msgIDGen c + 1, cache := (cache c)(msgIDGen c + 1 \<mapsto> s)\<rparr>"
    and msg': "msg' = msg\<lparr>msgId := msgIDGen c + 1\<rparr>"
    by (auto simp: SenderCache_add_def Let_def)
  have wrap: "unat (msgIDGen c') = (unat (msgIDGen c) + 1) mod 2 ^ 16"
    by (simp add: c' unat_word_ariths)
  have found: "fst (SenderCache_getAndRemove c' (msgId msg')) = Some s"
    by (simp add: c' msg' SenderCache_getAndRemove_def)
  have gone: "s0 \<notin> ran (cache c')"
    if "cache c (msgId msg') = Some s0" "s0 \<noteq> s" "\<forall>k. k \<noteq> msgId msg' \<longrightarrow> cache c k \<noteq> Some s0" for s0
    using that by (auto simp: c' msg' ran_def split: if_splits)
  show ?thesis
    using old s' wrap found gone by (simp add: c' msg')
qed

theorem SenderCache_add_spec_witness:
  "SenderCache_add \<lparr>cache = [0 \<mapsto> 7], msgIDGen = 65535\<rparr>
       \<lparr>msgId = 4660, Question = [''example.com.''], Answer = []\<rparr> 8
     = (4660, 8, \<lparr>cache = [0 \<mapsto> 8], msgIDGen = 0\<rparr>,
        \<lparr>msgId = 0, Question = [''example.com.''], Answer = []\<rparr>)
   \<and> unat (0 :: uint16) = (unat (65535 :: uint16) + 1) mod 2 ^ 16
   \<and> (7 :: nat) \<notin> ran [(0 :: uint16) \<mapsto> (8 :: nat)]"
proof -
  have h: "SenderCache_add \<lparr>cache = [0 \<mapsto> 7], msgIDGen = 65535\<rparr>
       \<lparr>msgId = 4660, Question = [''example.com.''], Answer = []\<rparr> 8
     = (4660, 8, \<lparr>cache = [0 \<mapsto> 8], msgIDGen = 0\<rparr>,
        \<lparr>msgId = 0, Question = [''example.com.''], Answer = []\<rparr>)"
  proof -
    have z: "(65536 :: uint16) = 0" by simp
    show ?thesis by (simp add: SenderCache_add_def z)
  qed
  from SenderCache_add_spec [OF h] show ?thesis
    using h by simp
qed

text \<open>
  C10: \<open>getAndRemove\<close> returns what is stored at the key and clears that key alone
  (nothing changes when the key is absent); the counter stays. \<open>add\<close> leaves every
  key other than the new one as it was.
\<close>

theorem SenderCache_frame:
  "(SenderCache_getAndRemove c i = (r, c') \<longrightarrow>
       r = cache c i \<and> cache c' i = None
       \<and> (\<forall>k. k \<noteq> i \<longrightarrow> cache c' k = cache c k)
       \<and> msgIDGen c' = msgIDGen c
       \<and> (cache c i = None \<longrightarrow> c' = c))
   \<and> (SenderCache_add c msg s = (old, s', c'', msg') \<longrightarrow>
       (\<forall>k. k \<noteq> msgId msg' \<longrightarrow> cache c'' k = cache c k))"
proof -
  have remove: "r = cache c i \<and> cache c' i = None
       \<and> (\<forall>k. k \<noteq> i \<longrightarrow> cache c' k = cache c k)
       \<and> msgIDGen c' = msgIDGen c
       \<and> (cache c i = None \<longrightarrow> c' = c)"
    if g: "SenderCache_getAndRemove c i = (r, c')"
  proof (cases "cache c i")
    case None
    with g show ?thesis by (auto simp: SenderCache_getAndRemove_def)
  next
    case (Some sender)
    with g show ?thesis by (auto simp: SenderCache_getAndRemove_def)
  qed
  have insert: "\<forall>k. k \<noteq> msgId msg' \<longrightarrow> cache c'' k = cache c k"
    if a: "SenderCache_add c msg s = (old, s', c'', msg')"
    using a by (auto simp: SenderCache_add_def Let_def)
  from remove insert show ?thesis by blast
qed

theorem SenderCache_frame_witness:
  "SenderCache_getAndRemove \<lparr>cache = [1 \<mapsto> 7, 2 \<mapsto> 9], msgIDGen = 2\<rparr> 1
     = (Some 7, \<lparr>cache = [2 \<mapsto> 9], msgIDGen = 2\<rparr>)
   \<and> SenderCache_add \<lparr>cache = [1 \<mapsto> 7, 2 \<mapsto> 9], msgIDGen = 2\<rparr>
        \<lparr>msgId = 4660, Question = [''example.com.''], Answer = []\<rparr> 11
     = (4660, 11, \<lparr>cache = [1 \<mapsto> 7, 2 \<mapsto> 9, 3 \<mapsto> 11], msgIDGen = 3\<rparr>,
        \<lparr>msgId = 3, Question = [''example.com.''], Answer = []\<rparr>)
   \<and> [(1 :: uint16) \<mapsto> (7 :: nat), 2 \<mapsto> 9, 3 \<mapsto> 11] 2 = [(1 :: uint16) \<mapsto> (7 :: nat), 2 \<mapsto> 9] 2"
proof -
  have g: "SenderCache_getAndRemove \<lparr>cache = [1 \<mapsto> 7, 2 \<mapsto> 9], msgIDGen = 2\<rparr> 1
     = (Some 7, \<lparr>cache = [2 \<mapsto> 9], msgIDGen = 2\<rparr>)"
    by (simp add: SenderCache_getAndRemove_def fun_upd_twist)
  have a: "SenderCache_add \<lparr>cache = [1 \<mapsto> 7, 2 \<mapsto> 9], msgIDGen = 2\<rparr>
        \<lparr>msgId = 4660, Question = [''example.com.''], Answer = []\<rparr> 11
     = (4660, 11, \<lparr>cache = [1 \<mapsto> 7, 2 \<mapsto> 9, 3 \<mapsto> 11], msgIDGen = 3\<rparr>,
        \<lparr>msgId = 3, Question = [''example.com.''], Answer = []\<rparr>)"
    by (simp add: SenderCache_add_def)
  from SenderCache_frame [of "\<lparr>cache = [1 \<mapsto> 7, 2 \<mapsto> 9], msgIDGen = 2\<rparr>" 1
      "Some 7" "\<lparr>cache = [2 \<mapsto> 9], msgIDGen = 2\<rparr>"
      "\<lparr>msgId = 4660, Question = [''example.com.''], Answer = []\<rparr>" 11
      4660 11 "\<lparr>cache = [1 \<mapsto> 7, 2 \<mapsto> 9, 3 \<mapsto> 11], msgIDGen = 3\<rparr>"
      "\<lparr>msgId = 3, Question = [''example.com.''], Answer = []\<rparr>"]
  show ?thesis using g a by simp
qed

section \<open>Properties of the pipe\<close>

text \<open>
  C1: when \<open>process\<close> returns a response, the response carries the identifier the
  request had at the call, and the error is nil. On the way, the request is queued for
  the writer under the identifier the cache generated; and when the pipe is ready to
  write and a response with an answer comes on the response channel, \<open>process\<close> does
  return it, with the request as it was at the call.
\<close>

theorem Pipe_process_response_id:
  "(Pipe_process p msg s sent interf sel = Returns (p', msg', Some resp', err) \<longrightarrow>
      msgId resp' = msgId msg \<and> err = None)
   \<and> (writeReady p \<and> Question msg \<noteq> [] \<and> Answer resp \<noteq> [] \<longrightarrow>
      Pipe_process p msg s Received interf (ResponseChan resp)
        = Returns (interf (p\<lparr>pipe_cache := (pipe_cache p)\<lparr>msgIDGen := msgIDGen (pipe_cache p) + 1,
                       cache := (cache (pipe_cache p))(msgIDGen (pipe_cache p) + 1 \<mapsto> s)\<rparr>,
                     writeChan := writeChan p @ [msg\<lparr>msgId := msgIDGen (pipe_cache p) + 1\<rparr>]\<rparr>),
                   msg, Some (resp\<lparr>msgId := msgId msg\<rparr>), None))"
proof -
  have a: "msgId resp' = msgId msg \<and> err = None"
    if "Pipe_process p msg s sent interf sel = Returns (p', msg', Some resp', err)"
    using that
    by (auto simp: Pipe_process_def SenderCache_add_def Let_def
        split: if_splits send_outcome.splits select_outcome.splits)
  have b: "Pipe_process p msg s Received interf (ResponseChan resp)
        = Returns (interf (p\<lparr>pipe_cache := (pipe_cache p)\<lparr>msgIDGen := msgIDGen (pipe_cache p) + 1,
                       cache := (cache (pipe_cache p))(msgIDGen (pipe_cache p) + 1 \<mapsto> s)\<rparr>,
                     writeChan := writeChan p @ [msg\<lparr>msgId := msgIDGen (pipe_cache p) + 1\<rparr>]\<rparr>),
                   msg, Some (resp\<lparr>msgId := msgId msg\<rparr>), None)"
    if "writeReady p" "Question msg \<noteq> []" "Answer resp \<noteq> []"
    using that by (simp add: Pipe_process_def isWriteReady_def SenderCache_add_def Let_def)
  from a b show ?thesis by blast
qed

theorem Pipe_process_response_id_witness:
  "Pipe_process
      \<lparr>has_driver = True, writeChan = [], writeReady = True, doneR = False, doneW = False,
         pipe_cache = \<lparr>cache = Map.empty, msgIDGen = 0\<rparr>\<rparr>
      \<lparr>msgId = 4660, Question = [''example.com.''], Answer = []\<rparr> 7 Received (\<lambda>p. p)
      (ResponseChan \<lparr>msgId = 1, Question = [''example.com.''], Answer = [''93.184.216.34'']\<rparr>)
    = Returns (\<lparr>has_driver = True,
                 writeChan = [\<lparr>msgId = 1, Question = [''example.com.''], Answer = []\<rparr>],
                 writeReady = True, doneR = False, doneW = False,
                 pipe_cache = \<lparr>cache = [1 \<mapsto> 7], msgIDGen = 1\<rparr>\<rparr>,
               \<lparr>msgId = 4660, Question = [''example.com.''], Answer = []\<rparr>,
               Some \<lparr>msgId = 4660, Question = [''example.com.''], Answer = [''93.184.216.34'']\<rparr>,
               None)"
  using Pipe_process_response_id [of
      "\<lparr>has_driver = True, writeChan = [], writeReady = True, doneR = False, doneW = False,
         pipe_cache = \<lparr>cache = Map.empty, msgIDGen = 0\<rparr>\<rparr>"
      "\<lparr>msgId = 4660, Question = [''example.com.''], Answer = []\<rparr>" 7 Received "\<lambda>p. p"
      "ResponseChan \<lparr>msgId = 1, Question = [''example.com.''], Answer = [''93.184.216.34'']\<rparr>"
      _ _ _ _ "\<lparr>msgId = 1, Question = [''example.com.''], Answer = [''93.184.216.34'']\<rparr>"]
  by simp

text \<open>
  The request message on the way out. When \<open>process\<close> returns from the rejection, from
  the response channel or from the error channel, the request is as it was at the call.
\<close>

lemma Pipe_process_request_restored:
  "Pipe_process p msg s sent interf sel = Returns (p', msg', resp, err) \<Longrightarrow> sel \<noteq> After \<Longrightarrow> msg' = msg"
  by (auto simp: Pipe_process_def SenderCache_add_def Let_def
      split: if_splits send_outcome.splits select_outcome.splits)

text \<open>
  C2: on the timeout path the request keeps the identifier the cache generated. A ready
  pipe with an empty cache and counter 0 takes a request with identifier \<open>0x1234\<close>;
  the request timer fires; \<open>process\<close> returns the timeout error and the request
  carries identifier 1.
\<close>

theorem Pipe_process_timeout_keeps_remapped_id:
  "Pipe_process
      \<lparr>has_driver = True, writeChan = [], writeReady = True, doneR = False, doneW = False,
         pipe_cache = \<lparr>cache = Map.empty, msgIDGen = 0\<rparr>\<rparr>
      \<lparr>msgId = 4660, Question = [''example.com.''], Answer = []\<rparr> 7 Received (\<lambda>p. p) After
    = Returns (\<lparr>has_driver = True,
                 writeChan = [\<lparr>msgId = 1, Question = [''example.com.''], Answer = []\<rparr>],
                 writeReady = True, doneR = False, doneW = False,
                 pipe_cache = \<lparr>cache = Map.empty, msgIDGen = 1\<rparr>\<rparr>,
               \<lparr>msgId = 1, Question = [''example.com.''], Answer = []\<rparr>,
               None, Some TimeoutErr)"
  by (simp add: Pipe_process_def isWriteReady_def SenderCache_add_def SenderCache_getAndRemove_def)

text \<open>
  The first statement of \<open>process\<close> logs \<open>msg.Question[0].Name\<close>: a message without
  a question makes the call panic before anything else happens.
\<close>

lemma Pipe_process_no_question:
  "Question msg = [] \<Longrightarrow> Pipe_process p msg s sent interf sel = Panics IndexOutOfRange"
  by (simp add: Pipe_process_def)

text \<open>
  C4: when the write-ready flag is unset, \<open>process\<close> returns \<open>writeNotReady\<close> whatever
  the other goroutines would do, and the pipe (its cache and the counter in it) and the
  message are returned as they were. The message has a question, as every message the
  server hands to the plugin has.
\<close>

theorem Pipe_process_not_ready:
  "\<not> writeReady p \<Longrightarrow> Question msg \<noteq> [] \<Longrightarrow>
     Pipe_process p msg s sent interf sel = Returns (p, msg, None, Some WriteNotReady)"
  by (simp add: Pipe_process_def isWriteReady_def)

theorem Pipe_process_not_ready_witness:
  "Pipe_process
      \<lparr>has_driver = True, writeChan = [], writeReady = False, doneR = False, doneW = True,
         pipe_cache = \<lparr>cache = [3 \<mapsto> 5], msgIDGen = 3\<rparr>\<rparr>
      \<lparr>msgId = 4660, Question = [''example.com.''], Answer = []\<rparr> 7 Received (\<lambda>p. p) After
    = Returns (\<lparr>has_driver = True, writeChan = [], writeReady = False, doneR = False, doneW = True,
                 pipe_cache = \<lparr>cache = [3 \<mapsto> 5], msgIDGen = 3\<rparr>\<rparr>,
               \<lparr>msgId = 4660, Question = [''example.com.''], Answer = []\<rparr>,
               None, Some WriteNotReady)"
  using Pipe_process_not_ready [of
      "\<lparr>has_driver = True, writeChan = [], writeReady = False, doneR = False, doneW = True,
         pipe_cache = \<lparr>cache = [3 \<mapsto> 5], msgIDGen = 3\<rparr>\<rparr>"
      "\<lparr>msgId = 4660, Question = [''example.com.''], Answer = []\<rparr>" 7 Received "\<lambda>p. p" After]
  by simp

subsection \<open>The writer's failure\<close>

lemma getAndRemove_fst: "fst (SenderCache_getAndRemove c i) = cache c i"
  by (simp add: SenderCache_getAndRemove_def split: option.splits)

lemma getAndRemove_cache: "cache (snd (SenderCache_getAndRemove c i)) = (cache c)(i := None)"
  by (auto simp: SenderCache_getAndRemove_def split: option.splits)

lemma getAndRemove_gen: "msgIDGen (snd (SenderCache_getAndRemove c i)) = msgIDGen c"
  by (simp add: SenderCache_getAndRemove_def split: option.splits)

lemma ran_remove_subset: "s \<in> ran (m(i := None)) \<Longrightarrow> s \<in> ran m"
  by (auto simp: ran_def split: if_splits)

lemma resurrect_loop_spec:
  "\<forall>s \<in> ran (cache c). listening s \<Longrightarrow>
   \<exists>c' acts. resurrect_loop listening q c = Returns ([], c', acts)
     \<and> (\<forall>m \<in> set q. \<forall>s. cache c (msgId m) = Some s \<longrightarrow> ErrChanSend s WriteNotReady \<in> set acts)
     \<and> (\<forall>a \<in> set acts. \<exists>m \<in> set q. \<exists>s. cache c (msgId m) = Some s \<and> a = ErrChanSend s WriteNotReady)
     \<and> msgIDGen c' = msgIDGen c
     \<and> (\<forall>k. cache c' k = (if k \<in> msgId ` set q then None else cache c k))"
proof (induction q arbitrary: c)
  case Nil
  then show ?case by simp
next
  case (Cons req q)
  obtain so c1 where g: "SenderCache_getAndRemove c (msgId req) = (so, c1)"
    by (cases "SenderCache_getAndRemove c (msgId req)")
  have so: "so = cache c (msgId req)" using g getAndRemove_fst [of c "msgId req"] by simp
  have c1: "cache c1 = (cache c)(msgId req := None)" using g getAndRemove_cache [of c "msgId req"] by simp
  have gen1: "msgIDGen c1 = msgIDGen c" using g getAndRemove_gen [of c "msgId req"] by simp
  have "\<forall>s \<in> ran (cache c1). listening s"
    using Cons.prems ran_remove_subset unfolding c1 by fast
  from Cons.IH [OF this] obtain c' acts where
    r: "resurrect_loop listening q c1 = Returns ([], c', acts)"
    and all: "\<forall>m \<in> set q. \<forall>s. cache c1 (msgId m) = Some s \<longrightarrow> ErrChanSend s WriteNotReady \<in> set acts"
    and only: "\<forall>a \<in> set acts. \<exists>m \<in> set q. \<exists>s. cache c1 (msgId m) = Some s \<and> a = ErrChanSend s WriteNotReady"
    and gen: "msgIDGen c' = msgIDGen c1"
    and rest: "\<forall>k. cache c' k = (if k \<in> msgId ` set q then None else cache c1 k)"
    by blast
  show ?case
  proof (cases so)
    case None
    then have eq: "resurrect_loop listening (req # q) c = Returns ([], c', acts)"
      using g r by simp
    have a: "\<forall>m \<in> set (req # q). \<forall>s. cache c (msgId m) = Some s \<longrightarrow> ErrChanSend s WriteNotReady \<in> set acts"
      using all None so c1 by (auto split: if_splits)
    have b: "\<forall>a \<in> set acts. \<exists>m \<in> set (req # q). \<exists>s. cache c (msgId m) = Some s \<and> a = ErrChanSend s WriteNotReady"
      using only c1 by (fastforce split: if_splits)
    have d: "\<forall>k. cache c' k = (if k \<in> msgId ` set (req # q) then None else cache c k)"
      using rest c1 by auto
    from eq a b d gen gen1 show ?thesis by simp
  next
    case (Some sender)
    then have "sender \<in> ran (cache c)" using so by (auto simp: ran_def)
    then have l: "listening sender" using Cons.prems by blast
    have eq: "resurrect_loop listening (req # q) c
                = Returns ([], c', ErrChanSend sender WriteNotReady # acts)"
      using g r Some l by simp
    have a: "\<forall>m \<in> set (req # q). \<forall>s. cache c (msgId m) = Some s \<longrightarrow>
               ErrChanSend s WriteNotReady \<in> set (ErrChanSend sender WriteNotReady # acts)"
      using all Some so c1 by (auto split: if_splits)
    have b: "\<forall>a \<in> set (ErrChanSend sender WriteNotReady # acts).
               \<exists>m \<in> set (req # q). \<exists>s. cache c (msgId m) = Some s \<and> a = ErrChanSend s WriteNotReady"
      using only c1 Some so by (fastforce split: if_splits)
    have d: "\<forall>k. cache c' k = (if k \<in> msgId ` set (req # q) then None else cache c k)"
      using rest c1 by auto
    from eq a b d gen gen1 show ?thesis by simp
  qed
qed


lemma closeWriteLoop_spec:
  assumes drv: "has_driver p"
    and lis: "\<forall>s \<in> ran (cache (pipe_cache p)). listening s"
  shows "\<exists>p' rest.
      closeWriteLoop listening p req
        = Returns (p', [DriverRemovePipe, AfterFuncCloseDoneR]
                       @ (case cache (pipe_cache p) (msgId req) of
                            None \<Rightarrow> [] | Some s \<Rightarrow> [ErrChanSend s WriteNotReady])
                       @ rest)
      \<and> (\<forall>m \<in> set (writeChan p). \<forall>s. msgId m \<noteq> msgId req \<and> cache (pipe_cache p) (msgId m) = Some s
            \<longrightarrow> ErrChanSend s WriteNotReady \<in> set rest)
      \<and> (\<forall>a \<in> set rest. \<exists>m \<in> set (writeChan p). \<exists>s. msgId m \<noteq> msgId req
            \<and> cache (pipe_cache p) (msgId m) = Some s \<and> a = ErrChanSend s WriteNotReady)
      \<and> writeChan p' = [] \<and> \<not> writeReady p' \<and> doneW p'
      \<and> (\<forall>k. cache (pipe_cache p') k
             = (if k \<in> msgId ` set (req # writeChan p) then None else cache (pipe_cache p) k))"
proof -
  obtain so c1 where g: "SenderCache_getAndRemove (pipe_cache p) (msgId req) = (so, c1)"
    by (cases "SenderCache_getAndRemove (pipe_cache p) (msgId req)")
  have so: "so = cache (pipe_cache p) (msgId req)"
    using g getAndRemove_fst [of "pipe_cache p" "msgId req"] by simp
  have c1: "cache c1 = (cache (pipe_cache p))(msgId req := None)"
    using g getAndRemove_cache [of "pipe_cache p" "msgId req"] by simp
  have "\<forall>s \<in> ran (cache c1). listening s"
    using lis ran_remove_subset unfolding c1 by fast
  from resurrect_loop_spec [OF this, of "writeChan p"] obtain c' acts where
    r: "resurrect_loop listening (writeChan p) c1 = Returns ([], c', acts)"
    and all: "\<forall>m \<in> set (writeChan p). \<forall>s. cache c1 (msgId m) = Some s \<longrightarrow> ErrChanSend s WriteNotReady \<in> set acts"
    and only: "\<forall>a \<in> set acts. \<exists>m \<in> set (writeChan p). \<exists>s. cache c1 (msgId m) = Some s \<and> a = ErrChanSend s WriteNotReady"
    and rest: "\<forall>k. cache c' k = (if k \<in> msgId ` set (writeChan p) then None else cache c1 k)"
    by blast
  define p' where "p' = p\<lparr>writeReady := False, doneW := True, pipe_cache := c', writeChan := []\<rparr>"
  have l: "listening sender" if "so = Some sender" for sender
  proof -
    from that so have "sender \<in> ran (cache (pipe_cache p))" by (auto simp: ran_def)
    with lis show ?thesis by blast
  qed
  have eq: "closeWriteLoop listening p req
        = Returns (p', [DriverRemovePipe, AfterFuncCloseDoneR]
                       @ (case cache (pipe_cache p) (msgId req) of
                            None \<Rightarrow> [] | Some s \<Rightarrow> [ErrChanSend s WriteNotReady])
                       @ acts)"
  proof (cases "cache (pipe_cache p) (msgId req)")
    case None
    with g so have "SenderCache_getAndRemove (pipe_cache p) (msgId req) = (None, c1)" by simp
    with drv r None show ?thesis
      by (simp add: closeWriteLoop_def Let_def setWriteReady_def safeClose_def resurrectReqs_def p'_def)
  next
    case (Some sender)
    with g so have "SenderCache_getAndRemove (pipe_cache p) (msgId req) = (Some sender, c1)" by simp
    moreover have "listening sender" using l so Some by simp
    ultimately show ?thesis using drv r Some
      by (simp add: closeWriteLoop_def Let_def setWriteReady_def safeClose_def resurrectReqs_def p'_def)
  qed
  have a: "\<forall>m \<in> set (writeChan p). \<forall>s. msgId m \<noteq> msgId req \<and> cache (pipe_cache p) (msgId m) = Some s
            \<longrightarrow> ErrChanSend s WriteNotReady \<in> set acts"
    using all c1 by auto
  have b: "\<forall>a \<in> set acts. \<exists>m \<in> set (writeChan p). \<exists>s. msgId m \<noteq> msgId req
            \<and> cache (pipe_cache p) (msgId m) = Some s \<and> a = ErrChanSend s WriteNotReady"
    using only c1 by (fastforce split: if_splits)
  have d: "\<forall>k. cache (pipe_cache p') k
             = (if k \<in> msgId ` set (req # writeChan p) then None else cache (pipe_cache p) k)"
    using rest c1 by (auto simp: p'_def)
  have e: "writeChan p' = [] \<and> \<not> writeReady p' \<and> doneW p'" by (simp add: p'_def)
  from eq a b d e show ?thesis by blast
qed

text \<open>
  C8: the writer loop takes the request \<open>req\<close> from the queue and setting the deadline
  or the write fails. The pipe has its driver, and every Sender in the cache belongs to
  a goroutine that is still receiving. Then the pass returns, the loop ends, and what the
  writer did is, in this order: the driver is told to remove the pipe, the timer for
  \<open>doneR\<close> is set, \<open>writeNotReady\<close> is sent to the Sender stored at the identifier of
  \<open>req\<close> (when there is one), and then the sends of the resurrection. Those are
  \<open>writeNotReady\<close> to the Sender of every other queued message that the cache holds,
  and nothing else. Afterwards the queue is empty, the pipe is not ready to write,
  \<open>doneW\<close> is closed, and the cache has lost the keys of the failing and the queued
  messages and no other.
\<close>

theorem writer_failure_order:
  assumes queue: "writeChan p = req # q"
    and taken: "\<not> (doneW p \<and> pick_done)"
    and fails: "deadline_err \<noteq> None \<or> write_err \<noteq> None"
    and drv: "has_driver p"
    and lis: "\<forall>s \<in> ran (cache (pipe_cache p)). listening s"
  shows "\<exists>p' rest.
      writeLoop_iter listening p pick_done deadline_err write_err
        = Returns (p', [DriverRemovePipe, AfterFuncCloseDoneR]
                       @ (case cache (pipe_cache p) (msgId req) of
                            None \<Rightarrow> [] | Some s \<Rightarrow> [ErrChanSend s WriteNotReady])
                       @ rest, False)
      \<and> (\<forall>m \<in> set q. \<forall>s. msgId m \<noteq> msgId req \<and> cache (pipe_cache p) (msgId m) = Some s
            \<longrightarrow> ErrChanSend s WriteNotReady \<in> set rest)
      \<and> (\<forall>a \<in> set rest. \<exists>m \<in> set q. \<exists>s. msgId m \<noteq> msgId req
            \<and> cache (pipe_cache p) (msgId m) = Some s \<and> a = ErrChanSend s WriteNotReady)
      \<and> writeChan p' = [] \<and> \<not> writeReady p' \<and> doneW p'
      \<and> (\<forall>k. cache (pipe_cache p') k
             = (if k \<in> msgId ` set (req # q) then None else cache (pipe_cache p) k))"
proof -
  let ?p1 = "p\<lparr>writeChan := q\<rparr>"
  have "has_driver ?p1" and "\<forall>s \<in> ran (cache (pipe_cache ?p1)). listening s"
    using drv lis by simp_all
  from closeWriteLoop_spec [OF this, of req] obtain p' rest where
    c: "closeWriteLoop listening ?p1 req
        = Returns (p', [DriverRemovePipe, AfterFuncCloseDoneR]
                       @ (case cache (pipe_cache p) (msgId req) of
                            None \<Rightarrow> [] | Some s \<Rightarrow> [ErrChanSend s WriteNotReady])
                       @ rest)"
    and rest: "(\<forall>m \<in> set q. \<forall>s. msgId m \<noteq> msgId req \<and> cache (pipe_cache p) (msgId m) = Some s
            \<longrightarrow> ErrChanSend s WriteNotReady \<in> set rest)
      \<and> (\<forall>a \<in> set rest. \<exists>m \<in> set q. \<exists>s. msgId m \<noteq> msgId req
            \<and> cache (pipe_cache p) (msgId m) = Some s \<and> a = ErrChanSend s WriteNotReady)
      \<and> writeChan p' = [] \<and> \<not> writeReady p' \<and> doneW p'
      \<and> (\<forall>k. cache (pipe_cache p') k
             = (if k \<in> msgId ` set (req # q) then None else cache (pipe_cache p) k))"
    by auto
  have "writeLoop_iter listening p pick_done deadline_err write_err
        = Returns (p', [DriverRemovePipe, AfterFuncCloseDoneR]
                       @ (case cache (pipe_cache p) (msgId req) of
                            None \<Rightarrow> [] | Some s \<Rightarrow> [ErrChanSend s WriteNotReady])
                       @ rest, False)"
    using queue taken fails c by (auto simp: writeLoop_iter_def Let_def)
  with rest show ?thesis by blast
qed

theorem writer_failure_order_witness:
  "\<exists>p' rest.
     writeLoop_iter (\<lambda>s. True)
      \<lparr>has_driver = True,
         writeChan = [\<lparr>msgId = 1, Question = [''a.example.''], Answer = []\<rparr>,
                      \<lparr>msgId = 2, Question = [''b.example.''], Answer = []\<rparr>,
                      \<lparr>msgId = 3, Question = [''c.example.''], Answer = []\<rparr>],
         writeReady = True, doneR = False, doneW = False,
         pipe_cache = \<lparr>cache = [1 \<mapsto> 10, 2 \<mapsto> 11], msgIDGen = 3\<rparr>\<rparr>
      False None (Some (External ''EPIPE''))
     = Returns (p', [DriverRemovePipe, AfterFuncCloseDoneR, ErrChanSend 10 WriteNotReady] @ rest, False)
     \<and> ErrChanSend 11 WriteNotReady \<in> set rest
     \<and> writeChan p' = [] \<and> \<not> writeReady p' \<and> doneW p'
     \<and> cache (pipe_cache p') 1 = None \<and> cache (pipe_cache p') 2 = None"
proof -
  let ?p = "\<lparr>has_driver = True,
         writeChan = [\<lparr>msgId = 1, Question = [''a.example.''], Answer = []\<rparr>,
                      \<lparr>msgId = 2, Question = [''b.example.''], Answer = []\<rparr>,
                      \<lparr>msgId = 3, Question = [''c.example.''], Answer = []\<rparr>],
         writeReady = True, doneR = False, doneW = False,
         pipe_cache = \<lparr>cache = [(1 :: uint16) \<mapsto> (10 :: nat), 2 \<mapsto> 11], msgIDGen = 3\<rparr>\<rparr>"
  have q: "writeChan ?p = \<lparr>msgId = 1, Question = [''a.example.''], Answer = []\<rparr>
             # [\<lparr>msgId = 2, Question = [''b.example.''], Answer = []\<rparr>,
                \<lparr>msgId = 3, Question = [''c.example.''], Answer = []\<rparr>]"
    by simp
  have t: "\<not> (doneW ?p \<and> False)" by simp
  have f: "(None :: error option) \<noteq> None \<or> Some (External ''EPIPE'') \<noteq> None" by simp
  have d: "has_driver ?p" by simp
  have l: "\<forall>s \<in> ran (cache (pipe_cache ?p)). (\<lambda>s. True) s" by simp
  from writer_failure_order [OF q t f d l] obtain p' rest where
    *: "writeLoop_iter (\<lambda>s. True) ?p False None (Some (External ''EPIPE''))
        = Returns (p', [DriverRemovePipe, AfterFuncCloseDoneR, ErrChanSend 10 WriteNotReady] @ rest, False)"
    and **: "\<forall>m \<in> set [\<lparr>msgId = 2, Question = [''b.example.''], Answer = []\<rparr>,
                \<lparr>msgId = 3, Question = [''c.example.''], Answer = []\<rparr>]. \<forall>s. msgId m \<noteq> 1 \<and> cache (pipe_cache ?p) (msgId m) = Some s
            \<longrightarrow> ErrChanSend s WriteNotReady \<in> set rest"
    and ***: "writeChan p' = [] \<and> \<not> writeReady p' \<and> doneW p'"
    and ****: "\<forall>k. cache (pipe_cache p') k
             = (if k \<in> msgId ` set (\<lparr>msgId = 1, Question = [''a.example.''], Answer = []\<rparr> # [\<lparr>msgId = 2, Question = [''b.example.''], Answer = []\<rparr>,
                \<lparr>msgId = 3, Question = [''c.example.''], Answer = []\<rparr>]) then None else cache (pipe_cache ?p) k)"
    by auto
  from ** have "ErrChanSend 11 WriteNotReady \<in> set rest" by simp
  moreover from **** have "cache (pipe_cache p') 1 = None \<and> cache (pipe_cache p') 2 = None" by simp
  ultimately show ?thesis using * *** by blast
qed

section \<open>Properties of the pipe driver\<close>

lemma countPipes_loop_eq:
  "countPipes_loop ps (a, b)
     = (a + int (length (filter primary ps)), b + int (length (filter (\<lambda>p. \<not> primary p) ps)))"
  by (induction ps arbitrary: a b) auto

lemma countPipes_eq:
  "countPipes pd = (int (length (filter primary (pipes pd))), int (length (filter (\<lambda>p. \<not> primary p) (pipes pd))))"
  by (simp add: countPipes_def countPipes_loop_eq)

lemma selectUpstream_ok:
  assumes "upstreams pd \<noteq> []"
  shows "\<exists>u. selectUpstream pd prim r = Inr u"
proof (cases "prim \<or> length (upstreams pd) = 1")
  case True
  with assms show ?thesis by (auto simp: selectUpstream_def index_def)
next
  case False
  with assms have len: "2 \<le> length (upstreams pd)"
    by (cases "upstreams pd") (auto simp: Suc_le_eq)
  then have m: "int r mod (int (length (upstreams pd)) - 1) < int (length (upstreams pd)) - 1"
    by (intro pos_mod_bound) simp
  have m0: "0 \<le> int r mod (int (length (upstreams pd)) - 1)"
    using len by (intro pos_mod_sign) simp
  from False len m m0 show ?thesis
    by (auto simp: selectUpstream_def IntnRange_def Intn_def index_def)
qed

lemma spawn_loop_Inr:
  "spawn_loop pd prim rnd n i loading spawned = Inr (l, sp) \<Longrightarrow>
     l = loading + max 0 (n - i)
     \<and> (\<exists>new. sp = spawned @ new \<and> int (length new) = max 0 (n - i) \<and> (\<forall>x \<in> set new. fst x = prim))"
proof (induction pd prim rnd n i loading spawned rule: spawn_loop.induct)
  case (1 pd prim rnd n i loading spawned)
  show ?case
  proof (cases "i < n")
    case False
    with "1.prems" show ?thesis
      by (simp add: spawn_loop.simps [of pd prim rnd n i])
  next
    case True
    with "1.prems" obtain u where u: "selectUpstream pd prim (rnd (nat i)) = Inr u"
      and r: "spawn_loop pd prim rnd n (i + 1) (loading + 1) (spawned @ [(prim, u)]) = Inr (l, sp)"
      by (simp add: spawn_loop.simps [of pd prim rnd n i] split: sum.splits)
    from "1.IH" [OF True u r] obtain new where
      l: "l = loading + 1 + max 0 (n - (i + 1))"
      and sp: "sp = (spawned @ [(prim, u)]) @ new"
      and len: "int (length new) = max 0 (n - (i + 1))"
      and all: "\<forall>x \<in> set new. fst x = prim"
      by blast
    have "sp = spawned @ ((prim, u) # new)" using sp by simp
    moreover have "int (length ((prim, u) # new)) = max 0 (n - i)" using len True by simp
    moreover have "\<forall>x \<in> set ((prim, u) # new). fst x = prim" using all by simp
    moreover have "l = loading + max 0 (n - i)" using l True by simp
    ultimately show ?thesis by blast
  qed
qed

lemma spawn_loop_ok:
  "upstreams pd \<noteq> [] \<Longrightarrow> \<exists>l sp. spawn_loop pd prim rnd n i loading spawned = Inr (l, sp)"
proof (induction pd prim rnd n i loading spawned rule: spawn_loop.induct)
  case (1 pd prim rnd n i loading spawned)
  show ?case
  proof (cases "i < n")
    case False
    then show ?thesis by (simp add: spawn_loop.simps [of pd prim rnd n i])
  next
    case True
    from selectUpstream_ok [OF "1.prems"] obtain u where
      u: "selectUpstream pd prim (rnd (nat i)) = Inr u" by blast
    from "1.IH" [OF True u "1.prems"] obtain l sp where
      "spawn_loop pd prim rnd n (i + 1) (loading + 1) (spawned @ [(prim, u)]) = Inr (l, sp)"
      by blast
    with True u show ?thesis by (simp add: spawn_loop.simps [of pd prim rnd n i])
  qed
qed


lemma filter_fst_spawned:
  "\<forall>x \<in> set sp. fst x = prim \<Longrightarrow>
     length (filter fst sp) = (if prim then length sp else 0)
     \<and> length (filter (\<lambda>x. \<not> fst x) sp) = (if prim then 0 else length sp)"
  by (induction sp) auto

text \<open>What \<open>loadPipes\<close> returns, when it returns; and that it returns.\<close>

lemma loadPipes_Inr:
  assumes "loadPipes pd rnd = Inr (pd', sp)"
  shows "(fst (countPipes pd) = 0 \<longrightarrow>
            int (length (filter fst sp)) = max 0 (primaryLimit pd - primaryLoading pd)
          \<and> int (length (filter (\<lambda>x. \<not> fst x) sp))
               = max 0 (secondaryLimit pd - snd (countPipes pd) - secondaryLoading pd))
       \<and> (fst (countPipes pd) \<noteq> 0 \<longrightarrow>
            int (length (filter fst sp))
               = max 0 (primaryLimit pd - fst (countPipes pd) - primaryLoading pd)
          \<and> int (length (filter (\<lambda>x. \<not> fst x) sp)) = 0)
       \<and> pd' = pd\<lparr>primaryLoading := primaryLoading pd + int (length (filter fst sp)),
                   secondaryLoading := secondaryLoading pd + int (length (filter (\<lambda>x. \<not> fst x) sp))\<rparr>"
proof (cases "fst (countPipes pd) = 0")
  case True
  obtain secondary where cp: "countPipes pd = (0, secondary)"
    using True by (cases "countPipes pd") simp
  from assms cp obtain l1 sp1 l2 sp2 where
    s1: "spawn_loop pd True rnd (primaryLimit pd - primaryLoading pd) 0 0 [] = Inr (l1, sp1)"
    and s2: "spawn_loop (pd\<lparr>primaryLoading := l1 + primaryLoading pd\<rparr>) False rnd
               (secondaryLimit pd - secondary - secondaryLoading pd) 0 0 [] = Inr (l2, sp2)"
    and pd': "pd' = pd\<lparr>primaryLoading := l1 + primaryLoading pd,
                       secondaryLoading := l2 + secondaryLoading pd\<rparr>"
    and sp: "sp = sp1 @ sp2"
    by (auto simp: loadPipes_def Let_def split: sum.splits)
  from spawn_loop_Inr [OF s1] have l1: "l1 = max 0 (primaryLimit pd - primaryLoading pd)"
    and n1: "int (length sp1) = max 0 (primaryLimit pd - primaryLoading pd)"
    and a1: "\<forall>x \<in> set sp1. fst x = True"
    by auto
  from spawn_loop_Inr [OF s2]
  have l2: "l2 = max 0 (secondaryLimit pd - secondary - secondaryLoading pd)"
    and n2: "int (length sp2) = max 0 (secondaryLimit pd - secondary - secondaryLoading pd)"
    and a2: "\<forall>x \<in> set sp2. fst x = False"
    by auto
  from filter_fst_spawned [OF a1] filter_fst_spawned [OF a2]
  have f: "length (filter fst sp) = length sp1" "length (filter (\<lambda>x. \<not> fst x) sp) = length sp2"
    by (simp_all add: sp)
  show ?thesis
    using True cp l1 n1 l2 n2 f pd' by (simp add: add.commute)
next
  case False
  obtain prim secondary where cp: "countPipes pd = (prim, secondary)" and p: "prim \<noteq> 0"
    using False by (cases "countPipes pd") simp
  from assms cp p obtain l1 where
    s1: "spawn_loop pd True rnd (primaryLimit pd - prim - primaryLoading pd) 0 0 [] = Inr (l1, sp)"
    and pd': "pd' = pd\<lparr>primaryLoading := l1 + primaryLoading pd\<rparr>"
    by (auto simp: loadPipes_def Let_def split: sum.splits)
  from spawn_loop_Inr [OF s1]
  have l1: "l1 = max 0 (primaryLimit pd - prim - primaryLoading pd)"
    and n1: "int (length sp) = max 0 (primaryLimit pd - prim - primaryLoading pd)"
    and a1: "\<forall>x \<in> set sp. fst x = True"
    by auto
  from filter_fst_spawned [OF a1]
  have f: "length (filter fst sp) = length sp" "length (filter (\<lambda>x. \<not> fst x) sp) = 0"
    by simp_all
  show ?thesis
    using False cp l1 n1 f pd' by (simp add: add.commute)
qed

lemma loadPipes_ok:
  assumes "upstreams pd \<noteq> []"
  shows "\<exists>pd' sp. loadPipes pd rnd = Inr (pd', sp)"
proof -
  obtain prim secondary where cp: "countPipes pd = (prim, secondary)"
    by (cases "countPipes pd")
  show ?thesis
  proof (cases "prim = 0")
    case True
    from spawn_loop_ok [OF assms] obtain l1 sp1 where
      s1: "spawn_loop pd True rnd (primaryLimit pd - primaryLoading pd) 0 0 [] = Inr (l1, sp1)"
      by blast
    have "upstreams (pd\<lparr>primaryLoading := l1 + primaryLoading pd\<rparr>) \<noteq> []" using assms by simp
    from spawn_loop_ok [OF this] obtain l2 sp2 where
      "spawn_loop (pd\<lparr>primaryLoading := l1 + primaryLoading pd\<rparr>) False rnd
               (secondaryLimit pd - secondary - secondaryLoading pd) 0 0 [] = Inr (l2, sp2)"
      by blast
    with s1 cp True show ?thesis by (simp add: loadPipes_def Let_def)
  next
    case False
    from spawn_loop_ok [OF assms] obtain l1 sp1 where
      "spawn_loop pd True rnd (primaryLimit pd - prim - primaryLoading pd) 0 0 [] = Inr (l1, sp1)"
      by blast
    with cp False show ?thesis by (simp add: loadPipes_def)
  qed
qed


lemma filter_remove_le:
  "k < length xs \<Longrightarrow> length (filter P (remove xs k)) \<le> length (filter P xs)"
proof -
  assume k: "k < length xs"
  have "xs = take k xs @ xs ! k # drop (Suc k) xs" using k by (rule id_take_nth_drop)
  then have "filter P xs = filter P (take k xs) @ filter P [xs ! k] @ filter P (drop (Suc k) xs)"
    by (metis append_Cons append_Nil filter_append)
  then show ?thesis by (simp add: remove_def)
qed

lemma removePipe_loop_spec:
  "\<exists>xs. removePipe_loop pd pipe i = pd\<lparr>pipes := xs\<rparr>
       \<and> (\<forall>P. length (filter P xs) \<le> length (filter P (pipes pd)))"
proof (induction pd pipe i rule: removePipe_loop.induct)
  case (1 pd pipe i)
  show ?case
  proof (cases "i < length (pipes pd)")
    case False
    then have "removePipe_loop pd pipe i = pd\<lparr>pipes := pipes pd\<rparr>"
      by (simp add: removePipe_loop.simps [of pd pipe i])
    then show ?thesis by blast
  next
    case True
    show ?thesis
    proof (cases "ptr (pipes pd ! i) = ptr pipe")
      case same: True
      with True have "removePipe_loop pd pipe i = pd\<lparr>pipes := remove (pipes pd) i\<rparr>"
        by (simp add: removePipe_loop.simps [of pd pipe i])
      with filter_remove_le [OF True] show ?thesis by blast
    next
      case False
      with True have "removePipe_loop pd pipe i = removePipe_loop pd pipe (i + 1)"
        by (simp add: removePipe_loop.simps [of pd pipe i])
      with "1.IH" [OF True False] show ?thesis by simp
    qed
  qed
qed

lemma NewPipes_primary:
  "length (filter primary (NewPipes a sp)) = length (filter fst sp)
   \<and> length (filter (\<lambda>p. \<not> primary p) (NewPipes a sp)) = length (filter (\<lambda>x. \<not> fst x) sp)"
  by (induction a sp rule: NewPipes.induct) auto

lemma filter_remove1_length:
  "x \<in> set xs \<Longrightarrow> int (length (filter P (remove1 x xs))) = int (length (filter P xs)) - (if P x then 1 else 0)"
  by (induction xs) auto

lemma World_inv_init: "World_inv ups (World_init ups)"
  by (simp add: World_inv_def World_init_def NewDriver_def PRIMARY_PIPES_MAX_def SECONDARY_PIPES_MAX_def)

lemma World_inv_step:
  assumes inv: "World_inv ups w" and step: "World_step w operation = Some w'"
  shows "World_inv ups w'"
proof (cases operation)
  case (OpLoadPipes rnd)
  with step obtain pd' sp where l: "loadPipes (drv w) rnd = Inr (pd', sp)"
    and w': "w' = \<lparr>drv = pd', initializing = initializing w @ NewPipes (next_ptr w) sp,
                   next_ptr = next_ptr w + length sp\<rparr>"
    by (auto split: sum.splits)
  from loadPipes_Inr [OF l] show ?thesis
    using inv unfolding w' World_inv_def countPipes_eq
    by (cases "filter primary (pipes (drv w)) = []")
       (auto simp: NewPipes_primary max_def split: if_splits)
next
  case (OpPipeReady pipe)
  with step have m: "pipe \<in> set (initializing w)"
    and w': "w' = w\<lparr>drv := pipeReady (drv w) pipe, initializing := remove1 pipe (initializing w)\<rparr>"
    by (auto split: if_splits)
  show ?thesis
    using inv filter_remove1_length [OF m, of primary] filter_remove1_length [OF m, of "\<lambda>p. \<not> primary p"]
    unfolding w' World_inv_def
    by (auto simp: pipeReady_def Let_def)
next
  case (OpPipeInitFailed pipe r)
  with step obtain sp where m: "pipe \<in> set (initializing w)"
    and f: "pipeInitFailed (drv w) pipe r = Inr sp"
    and w': "w' = w\<lparr>initializing := remove1 pipe (initializing w) @ NewPipes (next_ptr w) [sp],
                    next_ptr := next_ptr w + 1\<rparr>"
    by (auto split: if_splits sum.splits)
  from f have "fst sp = primary pipe"
    by (auto simp: pipeInitFailed_def split: sum.splits)
  then show ?thesis
    using inv filter_remove1_length [OF m, of primary] filter_remove1_length [OF m, of "\<lambda>p. \<not> primary p"]
    unfolding w' World_inv_def
    by (cases sp) auto
next
  case (OpRemovePipe pipe)
  with step have w': "w' = w\<lparr>drv := removePipe (drv w) pipe\<rparr>" by simp
  from removePipe_loop_spec [of "drv w" pipe 0] obtain xs where
    r: "removePipe (drv w) pipe = (drv w)\<lparr>pipes := xs\<rparr>"
    and le: "\<forall>P. length (filter P xs) \<le> length (filter P (pipes (drv w)))"
    by (auto simp: removePipe_def)
  from le have "length (filter primary xs) \<le> length (filter primary (pipes (drv w)))"
    and "length (filter (\<lambda>p. \<not> primary p) xs) \<le> length (filter (\<lambda>p. \<not> primary p) (pipes (drv w)))"
    by blast+
  then show ?thesis
    using inv unfolding w' World_inv_def r by simp
qed

lemma World_inv_run:
  "World_inv ups w \<Longrightarrow> World_run w ops = Some w' \<Longrightarrow> World_inv ups w'"
proof (induction ops arbitrary: w)
  case Nil
  then show ?case by simp
next
  case (Cons operation ops)
  from Cons.prems(2) obtain w1 where s: "World_step w operation = Some w1"
    and r: "World_run w1 ops = Some w'"
    by (auto split: option.splits)
  from World_inv_step [OF Cons.prems(1) s] Cons.IH r show ?case by blast
qed



text \<open>
  C7: in every state that the driver and its pipes reach from a new driver through
  \<open>loadPipes\<close>, \<open>pipeReady\<close>, \<open>pipeInitFailed\<close> and \<open>removePipe\<close>, the ready
  pipes of a class and the loading counter of that class together do not exceed the limit
  of the class. \<open>countPipes\<close> counts the ready pipes of each class; the loading
  counters are never negative, and the limits stay at 50. The states are those between
  operations: inside \<open>pipeReady\<close> the pool grows before the counter drops, while the
  write lock keeps every reader of the pool out.
\<close>

theorem driver_pool_invariant:
  "World_run (World_init ups) ops = Some w \<Longrightarrow>
     int (length (filter primary (pipes (drv w)))) + primaryLoading (drv w) \<le> primaryLimit (drv w)
     \<and> int (length (filter (\<lambda>p. \<not> primary p) (pipes (drv w)))) + secondaryLoading (drv w)
          \<le> secondaryLimit (drv w)
     \<and> countPipes (drv w)
          = (int (length (filter primary (pipes (drv w)))),
             int (length (filter (\<lambda>p. \<not> primary p) (pipes (drv w)))))
     \<and> 0 \<le> primaryLoading (drv w) \<and> 0 \<le> secondaryLoading (drv w)
     \<and> primaryLimit (drv w) = 50 \<and> secondaryLimit (drv w) = 50"
proof -
  assume "World_run (World_init ups) ops = Some w"
  with World_inv_init have "World_inv ups w" by (rule World_inv_run)
  then show ?thesis
    by (simp add: World_inv_def countPipes_eq PRIMARY_PIPES_MAX_def SECONDARY_PIPES_MAX_def)
qed

theorem driver_pool_invariant_witness:
  "map_option drv
     (World_run (World_init [\<lparr>Hostname = ''127.0.0.1'', Port = 53\<rparr>])
        [OpLoadPipes (\<lambda>i. 0), OpPipeReady \<lparr>ptr = 0, primary = True\<rparr>,
         OpPipeInitFailed \<lparr>ptr = 1, primary = True\<rparr> 0, OpPipeReady \<lparr>ptr = 50, primary = False\<rparr>])
     = Some \<lparr>upstreams = [\<lparr>Hostname = ''127.0.0.1'', Port = 53\<rparr>],
              primaryLimit = 50, secondaryLimit = 50,
              pipes = [\<lparr>ptr = 0, primary = True\<rparr>, \<lparr>ptr = 50, primary = False\<rparr>],
              primaryLoading = 49, secondaryLoading = 49\<rparr>
   \<and> int (length (filter primary [\<lparr>ptr = 0, primary = True\<rparr>, \<lparr>ptr = 50, primary = False\<rparr>])) + 49 \<le> (50 :: int)
   \<and> int (length (filter (\<lambda>p. \<not> primary p) [\<lparr>ptr = 0, primary = True\<rparr>, \<lparr>ptr = 50, primary = False\<rparr>])) + 49 \<le> (50 :: int)"
proof -
  have e: "map_option drv
     (World_run (World_init [\<lparr>Hostname = ''127.0.0.1'', Port = 53\<rparr>])
        [OpLoadPipes (\<lambda>i. 0), OpPipeReady \<lparr>ptr = 0, primary = True\<rparr>,
         OpPipeInitFailed \<lparr>ptr = 1, primary = True\<rparr> 0, OpPipeReady \<lparr>ptr = 50, primary = False\<rparr>])
     = Some \<lparr>upstreams = [\<lparr>Hostname = ''127.0.0.1'', Port = 53\<rparr>],
              primaryLimit = 50, secondaryLimit = 50,
              pipes = [\<lparr>ptr = 0, primary = True\<rparr>, \<lparr>ptr = 50, primary = False\<rparr>],
              primaryLoading = 49, secondaryLoading = 49\<rparr>"
    by code_simp
  then obtain w where r: "World_run (World_init [\<lparr>Hostname = ''127.0.0.1'', Port = 53\<rparr>])
        [OpLoadPipes (\<lambda>i. 0), OpPipeReady \<lparr>ptr = 0, primary = True\<rparr>,
         OpPipeInitFailed \<lparr>ptr = 1, primary = True\<rparr> 0, OpPipeReady \<lparr>ptr = 50, primary = False\<rparr>] = Some w"
    and d: "drv w = \<lparr>upstreams = [\<lparr>Hostname = ''127.0.0.1'', Port = 53\<rparr>],
              primaryLimit = 50, secondaryLimit = 50,
              pipes = [\<lparr>ptr = 0, primary = True\<rparr>, \<lparr>ptr = 50, primary = False\<rparr>],
              primaryLoading = 49, secondaryLoading = 49\<rparr>"
    by auto
  from driver_pool_invariant [OF r] show ?thesis using e d by simp
qed

text \<open>
  A driver without an upstream: the first call of \<open>selectUpstream\<close> indexes the empty
  list, and \<open>loadPipes\<close> panics before it has built a pipe.
\<close>

lemma loadPipes_no_upstream:
  "loadPipes (NewDriver []) rnd = Inl IndexOutOfRange"
  by (simp add: loadPipes_def NewDriver_def countPipes_def PRIMARY_PIPES_MAX_def
      spawn_loop.simps [of _ _ _ _ 0] selectUpstream_def index_def)

text \<open>
  C6: \<open>loadPipes\<close> in a reachable state of a driver that has an upstream. It returns.
  \<open>primary\<close> and \<open>secondary\<close> are the numbers of primary and of other pipes in the
  pool \<open>pipes\<close>, and they are what \<open>countPipes\<close> returns. With no primary pipe in the
  pool it builds \<open>primaryLimit - primaryLoading\<close> primary pipes and
  \<open>secondaryLimit - secondary - secondaryLoading\<close> secondary pipes; with a primary
  pipe in the pool it builds \<open>primaryLimit - primary - primaryLoading\<close> primary pipes
  and no secondary pipe. Each loading counter grows by the number of pipes of its class
  that were built, and nothing else in the driver changes.
\<close>

theorem loadPipes_spawn_counts:
  assumes run: "World_run (World_init ups) ops = Some w"
    and ups: "ups \<noteq> []"
  shows "\<exists>pd' sp.
      loadPipes (drv w) rnd = Inr (pd', sp)
      \<and> (length (filter primary (pipes (drv w))) = 0 \<longrightarrow>
            int (length (filter fst sp)) = primaryLimit (drv w) - primaryLoading (drv w)
          \<and> int (length (filter (\<lambda>x. \<not> fst x) sp))
               = secondaryLimit (drv w)
                 - int (length (filter (\<lambda>p. \<not> primary p) (pipes (drv w))))
                 - secondaryLoading (drv w))
      \<and> (0 < length (filter primary (pipes (drv w))) \<longrightarrow>
            int (length (filter fst sp))
               = primaryLimit (drv w) - int (length (filter primary (pipes (drv w))))
                 - primaryLoading (drv w)
          \<and> filter (\<lambda>x. \<not> fst x) sp = [])
      \<and> countPipes (drv w)
           = (int (length (filter primary (pipes (drv w)))),
              int (length (filter (\<lambda>p. \<not> primary p) (pipes (drv w)))))
      \<and> primaryLoading pd' = primaryLoading (drv w) + int (length (filter fst sp))
      \<and> secondaryLoading pd' = secondaryLoading (drv w) + int (length (filter (\<lambda>x. \<not> fst x) sp))
      \<and> pipes pd' = pipes (drv w) \<and> upstreams pd' = upstreams (drv w)
      \<and> primaryLimit pd' = primaryLimit (drv w) \<and> secondaryLimit pd' = secondaryLimit (drv w)"
proof -
  from World_inv_init run have inv: "World_inv ups w" by (rule World_inv_run)
  then have "upstreams (drv w) \<noteq> []" using ups by (simp add: World_inv_def)
  from loadPipes_ok [OF this] obtain pd' sp where l: "loadPipes (drv w) rnd = Inr (pd', sp)"
    by blast
  from loadPipes_Inr [OF l] inv have
    "(length (filter primary (pipes (drv w))) = 0 \<longrightarrow>
            int (length (filter fst sp)) = primaryLimit (drv w) - primaryLoading (drv w)
          \<and> int (length (filter (\<lambda>x. \<not> fst x) sp))
               = secondaryLimit (drv w)
                 - int (length (filter (\<lambda>p. \<not> primary p) (pipes (drv w))))
                 - secondaryLoading (drv w))
      \<and> (0 < length (filter primary (pipes (drv w))) \<longrightarrow>
            int (length (filter fst sp))
               = primaryLimit (drv w) - int (length (filter primary (pipes (drv w))))
                 - primaryLoading (drv w)
          \<and> filter (\<lambda>x. \<not> fst x) sp = [])
      \<and> primaryLoading pd' = primaryLoading (drv w) + int (length (filter fst sp))
      \<and> secondaryLoading pd' = secondaryLoading (drv w) + int (length (filter (\<lambda>x. \<not> fst x) sp))
      \<and> pipes pd' = pipes (drv w) \<and> upstreams pd' = upstreams (drv w)
      \<and> primaryLimit pd' = primaryLimit (drv w) \<and> secondaryLimit pd' = secondaryLimit (drv w)"
    unfolding World_inv_def countPipes_eq
    by (auto simp: max_def split: if_splits)
  with l countPipes_eq [of "drv w"] show ?thesis by blast
qed

theorem loadPipes_spawn_counts_witness:
  "map_option drv (World_run (World_init [\<lparr>Hostname = ''127.0.0.1'', Port = 53\<rparr>]) [OpLoadPipes (\<lambda>i. 0), OpPipeReady \<lparr>ptr = 0, primary = True\<rparr>, OpRemovePipe \<lparr>ptr = 0, primary = True\<rparr>]) = Some \<lparr>upstreams = [\<lparr>Hostname = ''127.0.0.1'', Port = 53\<rparr>], primaryLimit = 50, secondaryLimit = 50, pipes = [], primaryLoading = 49, secondaryLoading = 50\<rparr>
   \<and> loadPipes \<lparr>upstreams = [\<lparr>Hostname = ''127.0.0.1'', Port = 53\<rparr>], primaryLimit = 50, secondaryLimit = 50, pipes = [], primaryLoading = 49, secondaryLoading = 50\<rparr> (\<lambda>i. 0) = Inr (\<lparr>upstreams = [\<lparr>Hostname = ''127.0.0.1'', Port = 53\<rparr>], primaryLimit = 50, secondaryLimit = 50, pipes = [], primaryLoading = 50, secondaryLoading = 50\<rparr>, [(True, \<lparr>Hostname = ''127.0.0.1'', Port = 53\<rparr>)])
   \<and> (\<exists>pd' sp. loadPipes \<lparr>upstreams = [\<lparr>Hostname = ''127.0.0.1'', Port = 53\<rparr>], primaryLimit = 50, secondaryLimit = 50, pipes = [], primaryLoading = 49, secondaryLoading = 50\<rparr> (\<lambda>i. 0) = Inr (pd', sp)
         \<and> int (length (filter fst sp)) = 50 - 49
         \<and> int (length (filter (\<lambda>x. \<not> fst x) sp)) = 50 - 0 - 50
         \<and> primaryLoading pd' = 49 + int (length (filter fst sp)))
   \<and> map_option drv (World_run (World_init [\<lparr>Hostname = ''127.0.0.1'', Port = 53\<rparr>]) [OpLoadPipes (\<lambda>i. 0), OpPipeReady \<lparr>ptr = 0, primary = True\<rparr>, OpPipeReady \<lparr>ptr = 1, primary = True\<rparr>, OpPipeReady \<lparr>ptr = 50, primary = False\<rparr>,
         OpRemovePipe \<lparr>ptr = 1, primary = True\<rparr>, OpRemovePipe \<lparr>ptr = 50, primary = False\<rparr>]) = Some \<lparr>upstreams = [\<lparr>Hostname = ''127.0.0.1'', Port = 53\<rparr>], primaryLimit = 50, secondaryLimit = 50, pipes = [\<lparr>ptr = 0, primary = True\<rparr>], primaryLoading = 48, secondaryLoading = 49\<rparr>
   \<and> loadPipes \<lparr>upstreams = [\<lparr>Hostname = ''127.0.0.1'', Port = 53\<rparr>], primaryLimit = 50, secondaryLimit = 50, pipes = [\<lparr>ptr = 0, primary = True\<rparr>], primaryLoading = 48, secondaryLoading = 49\<rparr> (\<lambda>i. 0) = Inr (\<lparr>upstreams = [\<lparr>Hostname = ''127.0.0.1'', Port = 53\<rparr>], primaryLimit = 50, secondaryLimit = 50, pipes = [\<lparr>ptr = 0, primary = True\<rparr>], primaryLoading = 49, secondaryLoading = 49\<rparr>, [(True, \<lparr>Hostname = ''127.0.0.1'', Port = 53\<rparr>)])
   \<and> (\<exists>pd' sp. loadPipes \<lparr>upstreams = [\<lparr>Hostname = ''127.0.0.1'', Port = 53\<rparr>], primaryLimit = 50, secondaryLimit = 50, pipes = [\<lparr>ptr = 0, primary = True\<rparr>], primaryLoading = 48, secondaryLoading = 49\<rparr> (\<lambda>i. 0) = Inr (pd', sp)
         \<and> int (length (filter fst sp)) = 50 - 1 - 48
         \<and> filter (\<lambda>x. \<not> fst x) sp = []
         \<and> primaryLoading pd' = 48 + int (length (filter fst sp))
         \<and> secondaryLoading pd' = 49)"
proof -
  have ne: "[\<lparr>Hostname = ''127.0.0.1'', Port = 53\<rparr>] \<noteq> []" by simp
  have ea: "map_option drv (World_run (World_init [\<lparr>Hostname = ''127.0.0.1'', Port = 53\<rparr>]) [OpLoadPipes (\<lambda>i. 0), OpPipeReady \<lparr>ptr = 0, primary = True\<rparr>, OpRemovePipe \<lparr>ptr = 0, primary = True\<rparr>]) = Some \<lparr>upstreams = [\<lparr>Hostname = ''127.0.0.1'', Port = 53\<rparr>], primaryLimit = 50, secondaryLimit = 50, pipes = [], primaryLoading = 49, secondaryLoading = 50\<rparr>"
    by code_simp
  have la: "loadPipes \<lparr>upstreams = [\<lparr>Hostname = ''127.0.0.1'', Port = 53\<rparr>], primaryLimit = 50, secondaryLimit = 50, pipes = [], primaryLoading = 49, secondaryLoading = 50\<rparr> (\<lambda>i. 0) = Inr (\<lparr>upstreams = [\<lparr>Hostname = ''127.0.0.1'', Port = 53\<rparr>], primaryLimit = 50, secondaryLimit = 50, pipes = [], primaryLoading = 50, secondaryLoading = 50\<rparr>, [(True, \<lparr>Hostname = ''127.0.0.1'', Port = 53\<rparr>)])"
    by code_simp
  from ea obtain wa where ra: "World_run (World_init [\<lparr>Hostname = ''127.0.0.1'', Port = 53\<rparr>]) [OpLoadPipes (\<lambda>i. 0), OpPipeReady \<lparr>ptr = 0, primary = True\<rparr>, OpRemovePipe \<lparr>ptr = 0, primary = True\<rparr>] = Some wa"
    and da: "drv wa = \<lparr>upstreams = [\<lparr>Hostname = ''127.0.0.1'', Port = 53\<rparr>], primaryLimit = 50, secondaryLimit = 50, pipes = [], primaryLoading = 49, secondaryLoading = 50\<rparr>"
    by auto
  from loadPipes_spawn_counts [OF ra ne, of "\<lambda>i. 0"] da
  have a: "\<exists>pd' sp. loadPipes \<lparr>upstreams = [\<lparr>Hostname = ''127.0.0.1'', Port = 53\<rparr>], primaryLimit = 50, secondaryLimit = 50, pipes = [], primaryLoading = 49, secondaryLoading = 50\<rparr> (\<lambda>i. 0) = Inr (pd', sp)
         \<and> int (length (filter fst sp)) = 50 - 49
         \<and> int (length (filter (\<lambda>x. \<not> fst x) sp)) = 50 - 0 - 50
         \<and> primaryLoading pd' = 49 + int (length (filter fst sp))"
    by auto
  have eb: "map_option drv (World_run (World_init [\<lparr>Hostname = ''127.0.0.1'', Port = 53\<rparr>]) [OpLoadPipes (\<lambda>i. 0), OpPipeReady \<lparr>ptr = 0, primary = True\<rparr>, OpPipeReady \<lparr>ptr = 1, primary = True\<rparr>, OpPipeReady \<lparr>ptr = 50, primary = False\<rparr>,
         OpRemovePipe \<lparr>ptr = 1, primary = True\<rparr>, OpRemovePipe \<lparr>ptr = 50, primary = False\<rparr>]) = Some \<lparr>upstreams = [\<lparr>Hostname = ''127.0.0.1'', Port = 53\<rparr>], primaryLimit = 50, secondaryLimit = 50, pipes = [\<lparr>ptr = 0, primary = True\<rparr>], primaryLoading = 48, secondaryLoading = 49\<rparr>"
    by code_simp
  have lb: "loadPipes \<lparr>upstreams = [\<lparr>Hostname = ''127.0.0.1'', Port = 53\<rparr>], primaryLimit = 50, secondaryLimit = 50, pipes = [\<lparr>ptr = 0, primary = True\<rparr>], primaryLoading = 48, secondaryLoading = 49\<rparr> (\<lambda>i. 0) = Inr (\<lparr>upstreams = [\<lparr>Hostname = ''127.0.0.1'', Port = 53\<rparr>], primaryLimit = 50, secondaryLimit = 50, pipes = [\<lparr>ptr = 0, primary = True\<rparr>], primaryLoading = 49, secondaryLoading = 49\<rparr>, [(True, \<lparr>Hostname = ''127.0.0.1'', Port = 53\<rparr>)])"
    by code_simp
  from eb obtain wb where rb: "World_run (World_init [\<lparr>Hostname = ''127.0.0.1'', Port = 53\<rparr>]) [OpLoadPipes (\<lambda>i. 0), OpPipeReady \<lparr>ptr = 0, primary = True\<rparr>, OpPipeReady \<lparr>ptr = 1, primary = True\<rparr>, OpPipeReady \<lparr>ptr = 50, primary = False\<rparr>,
         OpRemovePipe \<lparr>ptr = 1, primary = True\<rparr>, OpRemovePipe \<lparr>ptr = 50, primary = False\<rparr>] = Some wb"
    and db: "drv wb = \<lparr>upstreams = [\<lparr>Hostname = ''127.0.0.1'', Port = 53\<rparr>], primaryLimit = 50, secondaryLimit = 50, pipes = [\<lparr>ptr = 0, primary = True\<rparr>], primaryLoading = 48, secondaryLoading = 49\<rparr>"
    by auto
  from loadPipes_spawn_counts [OF rb ne, of "\<lambda>i. 0"] db
  have b: "\<exists>pd' sp. loadPipes \<lparr>upstreams = [\<lparr>Hostname = ''127.0.0.1'', Port = 53\<rparr>], primaryLimit = 50, secondaryLimit = 50, pipes = [\<lparr>ptr = 0, primary = True\<rparr>], primaryLoading = 48, secondaryLoading = 49\<rparr> (\<lambda>i. 0) = Inr (pd', sp)
         \<and> int (length (filter fst sp)) = 50 - 1 - 48
         \<and> filter (\<lambda>x. \<not> fst x) sp = []
         \<and> primaryLoading pd' = 48 + int (length (filter fst sp))
         \<and> secondaryLoading pd' = 49"
    by auto
  from ea la a eb lb b show ?thesis by blast
qed

subsection \<open>\<open>PipeDriverImpl.process\<close>: retries and results\<close>

lemma choosePipe_nonempty:
  assumes "pipes (it_pd it) \<noteq> []"
  shows "\<exists>pipe \<in> set (pipes (it_pd it)). choosePipe it = Inr ([], Some pipe)"
proof -
  let ?n = "int (length (pipes (it_pd it)))"
  have n: "0 < ?n" using assms by simp
  have lo: "0 \<le> int (it_draw it) mod ?n" using n by (rule pos_mod_sign)
  have hi: "int (it_draw it) mod ?n < ?n" using n by (rule pos_mod_bound)
  from lo hi have "nat (int (it_draw it) mod ?n) < length (pipes (it_pd it))" by linarith
  then have "pipes (it_pd it) ! nat (int (it_draw it) mod ?n) \<in> set (pipes (it_pd it))"
    by (rule nth_mem)
  moreover have "choosePipe it = Inr ([], Some (pipes (it_pd it) ! nat (int (it_draw it) mod ?n)))"
    using assms n lo hi by (simp add: choosePipe_def Let_def Intn_def index_def)
  ultimately show ?thesis by blast
qed

lemma choosePipe_empty:
  assumes "pipes (it_pd it) = []" and "loadPipes (it_pd it) (it_rnd it) = Inr (pd', sp)"
  shows "choosePipe it = Inr ([LoadPipes pd' sp], None)"
  using assms by (simp add: choosePipe_def Let_def)





text \<open>
  C5: \<open>PipeDriverImpl.process\<close> runs its loop with the deadline 500 ms after the clock
  read at entry. In a pass that finds the pool empty (the message has a question, the
  driver has an upstream), \<open>loadPipes\<close> returns and no pipe is chosen: when the clock
  read in the pass is before the deadline the pass sleeps 100 ms and the loop goes on
  with the next pass; otherwise \<open>process\<close> returns \<open>ServerFailure\<close> with the error
  \<open>no pipe available\<close>. In a pass that finds the pool not empty a pipe of the pool is
  chosen.
\<close>

theorem driver_process_no_pipe:
  "PipeDriverImpl_process now msg its = process_loop (now + 500 * Millisecond) msg its
   \<and> (Question msg \<noteq> [] \<and> pipes (it_pd it) = [] \<and> upstreams (it_pd it) \<noteq> [] \<longrightarrow>
        (\<exists>pd' sp. loadPipes (it_pd it) (it_rnd it) = Inr (pd', sp)
           \<and> (it_now it < deadline \<longrightarrow>
                process_loop deadline msg (it # its)
                  = (case process_loop deadline msg its of
                       (acts', r) \<Rightarrow> ([LoadPipes pd' sp, Sleep (100 * Millisecond)] @ acts', r)))
           \<and> (\<not> it_now it < deadline \<longrightarrow>
                process_loop deadline msg (it # its)
                  = ([LoadPipes pd' sp],
                     Some (Returns (RcodeServerFailure, Some (ErrorNew ''no pipe available'')))))))
   \<and> (pipes (it_pd it) \<noteq> [] \<longrightarrow>
        (\<exists>pipe \<in> set (pipes (it_pd it)). choosePipe it = Inr ([], Some pipe)))"
proof -
  have entry: "PipeDriverImpl_process now msg its = process_loop (now + 500 * Millisecond) msg its"
    by (simp add: PipeDriverImpl_process_def)
  have empty: "\<exists>pd' sp. loadPipes (it_pd it) (it_rnd it) = Inr (pd', sp)
           \<and> (it_now it < deadline \<longrightarrow>
                process_loop deadline msg (it # its)
                  = (case process_loop deadline msg its of
                       (acts', r) \<Rightarrow> ([LoadPipes pd' sp, Sleep (100 * Millisecond)] @ acts', r)))
           \<and> (\<not> it_now it < deadline \<longrightarrow>
                process_loop deadline msg (it # its)
                  = ([LoadPipes pd' sp],
                     Some (Returns (RcodeServerFailure, Some (ErrorNew ''no pipe available'')))))"
    if q: "Question msg \<noteq> []" and e: "pipes (it_pd it) = []" and u: "upstreams (it_pd it) \<noteq> []"
  proof -
    from loadPipes_ok [OF u] obtain pd' sp where l: "loadPipes (it_pd it) (it_rnd it) = Inr (pd', sp)"
      by blast
    from choosePipe_empty [OF e l] q
    have "(it_now it < deadline \<longrightarrow>
                process_loop deadline msg (it # its)
                  = (case process_loop deadline msg its of
                       (acts', r) \<Rightarrow> ([LoadPipes pd' sp, Sleep (100 * Millisecond)] @ acts', r)))
           \<and> (\<not> it_now it < deadline \<longrightarrow>
                process_loop deadline msg (it # its)
                  = ([LoadPipes pd' sp],
                     Some (Returns (RcodeServerFailure, Some (ErrorNew ''no pipe available'')))))"
      by (simp add: process_iter_def)
    with l show ?thesis by blast
  qed
  from entry empty choosePipe_nonempty show ?thesis by blast
qed

theorem driver_process_no_pipe_witness:
  "PipeDriverImpl_process 0 \<lparr>msgId = 4660, Question = [''example.com.''], Answer = []\<rparr> [\<lparr>it_pd = \<lparr>upstreams = [\<lparr>Hostname = ''127.0.0.1'', Port = 53\<rparr>], primaryLimit = 50, secondaryLimit = 50, pipes = [], primaryLoading = 50, secondaryLoading = 50\<rparr>,
        it_heap = (\<lambda>a. \<lparr>has_driver = True, writeChan = [], writeReady = False, doneR = False, doneW = True, pipe_cache = \<lparr>cache = Map.empty, msgIDGen = 0\<rparr>\<rparr>),
        it_draw = 7, it_rnd = (\<lambda>i. 0), it_now = 100000000, it_sender = 1, it_sent = Received,
        it_interf = (\<lambda>p. p), it_select = After, it_sink = None\<rparr>, \<lparr>it_pd = \<lparr>upstreams = [\<lparr>Hostname = ''127.0.0.1'', Port = 53\<rparr>], primaryLimit = 50, secondaryLimit = 50, pipes = [], primaryLoading = 50, secondaryLoading = 50\<rparr>,
        it_heap = (\<lambda>a. \<lparr>has_driver = True, writeChan = [], writeReady = False, doneR = False, doneW = True, pipe_cache = \<lparr>cache = Map.empty, msgIDGen = 0\<rparr>\<rparr>),
        it_draw = 7, it_rnd = (\<lambda>i. 0), it_now = 600000000, it_sender = 1, it_sent = Received,
        it_interf = (\<lambda>p. p), it_select = After, it_sink = None\<rparr>]
     = ([LoadPipes (\<lparr>upstreams = [\<lparr>Hostname = ''127.0.0.1'', Port = 53\<rparr>], primaryLimit = 50, secondaryLimit = 50, pipes = [], primaryLoading = 50, secondaryLoading = 50\<rparr>) [], Sleep 100000000, LoadPipes (\<lparr>upstreams = [\<lparr>Hostname = ''127.0.0.1'', Port = 53\<rparr>], primaryLimit = 50, secondaryLimit = 50, pipes = [], primaryLoading = 50, secondaryLoading = 50\<rparr>) []],
        Some (Returns (2, Some (ErrorNew ''no pipe available''))))
   \<and> process_loop 500000000 \<lparr>msgId = 4660, Question = [''example.com.''], Answer = []\<rparr> [\<lparr>it_pd = \<lparr>upstreams = [\<lparr>Hostname = ''127.0.0.1'', Port = 53\<rparr>], primaryLimit = 50, secondaryLimit = 50, pipes = [], primaryLoading = 50, secondaryLoading = 50\<rparr>,
        it_heap = (\<lambda>a. \<lparr>has_driver = True, writeChan = [], writeReady = False, doneR = False, doneW = True, pipe_cache = \<lparr>cache = Map.empty, msgIDGen = 0\<rparr>\<rparr>),
        it_draw = 7, it_rnd = (\<lambda>i. 0), it_now = 100000000, it_sender = 1, it_sent = Received,
        it_interf = (\<lambda>p. p), it_select = After, it_sink = None\<rparr>, \<lparr>it_pd = \<lparr>upstreams = [\<lparr>Hostname = ''127.0.0.1'', Port = 53\<rparr>], primaryLimit = 50, secondaryLimit = 50, pipes = [], primaryLoading = 50, secondaryLoading = 50\<rparr>,
        it_heap = (\<lambda>a. \<lparr>has_driver = True, writeChan = [], writeReady = False, doneR = False, doneW = True, pipe_cache = \<lparr>cache = Map.empty, msgIDGen = 0\<rparr>\<rparr>),
        it_draw = 7, it_rnd = (\<lambda>i. 0), it_now = 600000000, it_sender = 1, it_sent = Received,
        it_interf = (\<lambda>p. p), it_select = After, it_sink = None\<rparr>]
     = (case process_loop 500000000 \<lparr>msgId = 4660, Question = [''example.com.''], Answer = []\<rparr> [\<lparr>it_pd = \<lparr>upstreams = [\<lparr>Hostname = ''127.0.0.1'', Port = 53\<rparr>], primaryLimit = 50, secondaryLimit = 50, pipes = [], primaryLoading = 50, secondaryLoading = 50\<rparr>,
        it_heap = (\<lambda>a. \<lparr>has_driver = True, writeChan = [], writeReady = False, doneR = False, doneW = True, pipe_cache = \<lparr>cache = Map.empty, msgIDGen = 0\<rparr>\<rparr>),
        it_draw = 7, it_rnd = (\<lambda>i. 0), it_now = 600000000, it_sender = 1, it_sent = Received,
        it_interf = (\<lambda>p. p), it_select = After, it_sink = None\<rparr>] of
          (acts', r) \<Rightarrow> ([LoadPipes (\<lparr>upstreams = [\<lparr>Hostname = ''127.0.0.1'', Port = 53\<rparr>], primaryLimit = 50, secondaryLimit = 50, pipes = [], primaryLoading = 50, secondaryLoading = 50\<rparr>) [], Sleep (100 * Millisecond)] @ acts', r))
   \<and> process_loop 500000000 \<lparr>msgId = 4660, Question = [''example.com.''], Answer = []\<rparr> [\<lparr>it_pd = \<lparr>upstreams = [\<lparr>Hostname = ''127.0.0.1'', Port = 53\<rparr>], primaryLimit = 50, secondaryLimit = 50, pipes = [], primaryLoading = 50, secondaryLoading = 50\<rparr>,
        it_heap = (\<lambda>a. \<lparr>has_driver = True, writeChan = [], writeReady = False, doneR = False, doneW = True, pipe_cache = \<lparr>cache = Map.empty, msgIDGen = 0\<rparr>\<rparr>),
        it_draw = 7, it_rnd = (\<lambda>i. 0), it_now = 600000000, it_sender = 1, it_sent = Received,
        it_interf = (\<lambda>p. p), it_select = After, it_sink = None\<rparr>]
     = ([LoadPipes (\<lparr>upstreams = [\<lparr>Hostname = ''127.0.0.1'', Port = 53\<rparr>], primaryLimit = 50, secondaryLimit = 50, pipes = [], primaryLoading = 50, secondaryLoading = 50\<rparr>) []], Some (Returns (RcodeServerFailure, Some (ErrorNew ''no pipe available''))))"
proof -
  have l: "loadPipes (\<lparr>upstreams = [\<lparr>Hostname = ''127.0.0.1'', Port = 53\<rparr>], primaryLimit = 50, secondaryLimit = 50, pipes = [], primaryLoading = 50, secondaryLoading = 50\<rparr>) (\<lambda>i. 0) = Inr (\<lparr>upstreams = [\<lparr>Hostname = ''127.0.0.1'', Port = 53\<rparr>], primaryLimit = 50, secondaryLimit = 50, pipes = [], primaryLoading = 50, secondaryLoading = 50\<rparr>, [])"
    by (simp add: loadPipes_def countPipes_def spawn_loop.simps)
  have e: "PipeDriverImpl_process 0 \<lparr>msgId = 4660, Question = [''example.com.''], Answer = []\<rparr> [\<lparr>it_pd = \<lparr>upstreams = [\<lparr>Hostname = ''127.0.0.1'', Port = 53\<rparr>], primaryLimit = 50, secondaryLimit = 50, pipes = [], primaryLoading = 50, secondaryLoading = 50\<rparr>,
        it_heap = (\<lambda>a. \<lparr>has_driver = True, writeChan = [], writeReady = False, doneR = False, doneW = True, pipe_cache = \<lparr>cache = Map.empty, msgIDGen = 0\<rparr>\<rparr>),
        it_draw = 7, it_rnd = (\<lambda>i. 0), it_now = 100000000, it_sender = 1, it_sent = Received,
        it_interf = (\<lambda>p. p), it_select = After, it_sink = None\<rparr>, \<lparr>it_pd = \<lparr>upstreams = [\<lparr>Hostname = ''127.0.0.1'', Port = 53\<rparr>], primaryLimit = 50, secondaryLimit = 50, pipes = [], primaryLoading = 50, secondaryLoading = 50\<rparr>,
        it_heap = (\<lambda>a. \<lparr>has_driver = True, writeChan = [], writeReady = False, doneR = False, doneW = True, pipe_cache = \<lparr>cache = Map.empty, msgIDGen = 0\<rparr>\<rparr>),
        it_draw = 7, it_rnd = (\<lambda>i. 0), it_now = 600000000, it_sender = 1, it_sent = Received,
        it_interf = (\<lambda>p. p), it_select = After, it_sink = None\<rparr>]
     = ([LoadPipes (\<lparr>upstreams = [\<lparr>Hostname = ''127.0.0.1'', Port = 53\<rparr>], primaryLimit = 50, secondaryLimit = 50, pipes = [], primaryLoading = 50, secondaryLoading = 50\<rparr>) [], Sleep 100000000, LoadPipes (\<lparr>upstreams = [\<lparr>Hostname = ''127.0.0.1'', Port = 53\<rparr>], primaryLimit = 50, secondaryLimit = 50, pipes = [], primaryLoading = 50, secondaryLoading = 50\<rparr>) []],
        Some (Returns (2, Some (ErrorNew ''no pipe available''))))"
    by (simp add: PipeDriverImpl_process_def process_iter_def choosePipe_def l Millisecond_def
        RcodeServerFailure_def)
  from driver_process_no_pipe [of 0 "\<lparr>msgId = 4660, Question = [''example.com.''], Answer = []\<rparr>" "[\<lparr>it_pd = \<lparr>upstreams = [\<lparr>Hostname = ''127.0.0.1'', Port = 53\<rparr>], primaryLimit = 50, secondaryLimit = 50, pipes = [], primaryLoading = 50, secondaryLoading = 50\<rparr>,
        it_heap = (\<lambda>a. \<lparr>has_driver = True, writeChan = [], writeReady = False, doneR = False, doneW = True, pipe_cache = \<lparr>cache = Map.empty, msgIDGen = 0\<rparr>\<rparr>),
        it_draw = 7, it_rnd = (\<lambda>i. 0), it_now = 600000000, it_sender = 1, it_sent = Received,
        it_interf = (\<lambda>p. p), it_select = After, it_sink = None\<rparr>]" "\<lparr>it_pd = \<lparr>upstreams = [\<lparr>Hostname = ''127.0.0.1'', Port = 53\<rparr>], primaryLimit = 50, secondaryLimit = 50, pipes = [], primaryLoading = 50, secondaryLoading = 50\<rparr>,
        it_heap = (\<lambda>a. \<lparr>has_driver = True, writeChan = [], writeReady = False, doneR = False, doneW = True, pipe_cache = \<lparr>cache = Map.empty, msgIDGen = 0\<rparr>\<rparr>),
        it_draw = 7, it_rnd = (\<lambda>i. 0), it_now = 100000000, it_sender = 1, it_sent = Received,
        it_interf = (\<lambda>p. p), it_select = After, it_sink = None\<rparr>" 500000000] l
  have a: "process_loop 500000000 \<lparr>msgId = 4660, Question = [''example.com.''], Answer = []\<rparr> [\<lparr>it_pd = \<lparr>upstreams = [\<lparr>Hostname = ''127.0.0.1'', Port = 53\<rparr>], primaryLimit = 50, secondaryLimit = 50, pipes = [], primaryLoading = 50, secondaryLoading = 50\<rparr>,
        it_heap = (\<lambda>a. \<lparr>has_driver = True, writeChan = [], writeReady = False, doneR = False, doneW = True, pipe_cache = \<lparr>cache = Map.empty, msgIDGen = 0\<rparr>\<rparr>),
        it_draw = 7, it_rnd = (\<lambda>i. 0), it_now = 100000000, it_sender = 1, it_sent = Received,
        it_interf = (\<lambda>p. p), it_select = After, it_sink = None\<rparr>, \<lparr>it_pd = \<lparr>upstreams = [\<lparr>Hostname = ''127.0.0.1'', Port = 53\<rparr>], primaryLimit = 50, secondaryLimit = 50, pipes = [], primaryLoading = 50, secondaryLoading = 50\<rparr>,
        it_heap = (\<lambda>a. \<lparr>has_driver = True, writeChan = [], writeReady = False, doneR = False, doneW = True, pipe_cache = \<lparr>cache = Map.empty, msgIDGen = 0\<rparr>\<rparr>),
        it_draw = 7, it_rnd = (\<lambda>i. 0), it_now = 600000000, it_sender = 1, it_sent = Received,
        it_interf = (\<lambda>p. p), it_select = After, it_sink = None\<rparr>]
     = (case process_loop 500000000 \<lparr>msgId = 4660, Question = [''example.com.''], Answer = []\<rparr> [\<lparr>it_pd = \<lparr>upstreams = [\<lparr>Hostname = ''127.0.0.1'', Port = 53\<rparr>], primaryLimit = 50, secondaryLimit = 50, pipes = [], primaryLoading = 50, secondaryLoading = 50\<rparr>,
        it_heap = (\<lambda>a. \<lparr>has_driver = True, writeChan = [], writeReady = False, doneR = False, doneW = True, pipe_cache = \<lparr>cache = Map.empty, msgIDGen = 0\<rparr>\<rparr>),
        it_draw = 7, it_rnd = (\<lambda>i. 0), it_now = 600000000, it_sender = 1, it_sent = Received,
        it_interf = (\<lambda>p. p), it_select = After, it_sink = None\<rparr>] of
          (acts', r) \<Rightarrow> ([LoadPipes (\<lparr>upstreams = [\<lparr>Hostname = ''127.0.0.1'', Port = 53\<rparr>], primaryLimit = 50, secondaryLimit = 50, pipes = [], primaryLoading = 50, secondaryLoading = 50\<rparr>) [], Sleep (100 * Millisecond)] @ acts', r))"
    by simp
  from driver_process_no_pipe [of 0 "\<lparr>msgId = 4660, Question = [''example.com.''], Answer = []\<rparr>" "[]" "\<lparr>it_pd = \<lparr>upstreams = [\<lparr>Hostname = ''127.0.0.1'', Port = 53\<rparr>], primaryLimit = 50, secondaryLimit = 50, pipes = [], primaryLoading = 50, secondaryLoading = 50\<rparr>,
        it_heap = (\<lambda>a. \<lparr>has_driver = True, writeChan = [], writeReady = False, doneR = False, doneW = True, pipe_cache = \<lparr>cache = Map.empty, msgIDGen = 0\<rparr>\<rparr>),
        it_draw = 7, it_rnd = (\<lambda>i. 0), it_now = 600000000, it_sender = 1, it_sent = Received,
        it_interf = (\<lambda>p. p), it_select = After, it_sink = None\<rparr>" 500000000] l
  have b: "process_loop 500000000 \<lparr>msgId = 4660, Question = [''example.com.''], Answer = []\<rparr> [\<lparr>it_pd = \<lparr>upstreams = [\<lparr>Hostname = ''127.0.0.1'', Port = 53\<rparr>], primaryLimit = 50, secondaryLimit = 50, pipes = [], primaryLoading = 50, secondaryLoading = 50\<rparr>,
        it_heap = (\<lambda>a. \<lparr>has_driver = True, writeChan = [], writeReady = False, doneR = False, doneW = True, pipe_cache = \<lparr>cache = Map.empty, msgIDGen = 0\<rparr>\<rparr>),
        it_draw = 7, it_rnd = (\<lambda>i. 0), it_now = 600000000, it_sender = 1, it_sent = Received,
        it_interf = (\<lambda>p. p), it_select = After, it_sink = None\<rparr>]
     = ([LoadPipes (\<lparr>upstreams = [\<lparr>Hostname = ''127.0.0.1'', Port = 53\<rparr>], primaryLimit = 50, secondaryLimit = 50, pipes = [], primaryLoading = 50, secondaryLoading = 50\<rparr>) []], Some (Returns (RcodeServerFailure, Some (ErrorNew ''no pipe available''))))"
    by simp
  from e a b show ?thesis by blast
qed

end
